theory Spec2Isabelle
  imports Main "HOL-Library.Sublist" "HOL-Library.Multiset"
begin

section \<open>JavaScript values used by the reconciliation core\<close>

text \<open>
  Exceptions are values: a function that can throw returns \<open>error + 'a\<close>, with
  \<open>Inl\<close> for the thrown error. Strings are lists of characters; the string operations
  below are written for lists of any element type, so they do not depend on how a
  character is encoded.
\<close>

datatype error = Error string | RangeError string | TypeError string

text \<open>
  \<open>String.prototype.split\<close> with a string separator: the text is scanned left to
  right, a match of the separator closes the current piece and the scan resumes after
  the match, so the matches found never overlap. With the empty separator the text is
  cut into its single characters.
\<close>

function split_from :: "'a list \<Rightarrow> 'a list \<Rightarrow> 'a list \<Rightarrow> 'a list list" where
  "split_from sep acc [] = [acc]"
| "split_from sep acc (c # cs) =
     (if sep \<noteq> [] \<and> prefix sep (c # cs)
      then acc # split_from sep [] (drop (length sep) (c # cs))
      else split_from sep (acc @ [c]) cs)"
  by pat_completeness auto
termination
  by (relation "measure (\<lambda>(sep, acc, s). length s)") auto

definition split :: "'a list \<Rightarrow> 'a list \<Rightarrow> 'a list list" where
  "split sep s = (if sep = [] then map (\<lambda>c. [c]) s else split_from sep [] s)"

text \<open>\<open>Array.prototype.join\<close> on an array of strings.\<close>

fun join :: "'a list \<Rightarrow> 'a list list \<Rightarrow> 'a list" where
  "join v [] = []"
| "join v [x] = x"
| "join v (x # y # ys) = x @ v @ join v (y # ys)"

text \<open>
  A JavaScript number as the renderer meets one (an identifier, a port, a result of
  \<open>parseInt\<close>). \<open>Num n\<close> is the integer \<open>n\<close> and stands for a number only when
  \<open>n\<close> is a safe integer, that is \<open>|n| \<le> 2^53 - 1\<close>: there the number is exactly
  \<open>n\<close> and \<open>String\<close> prints its decimal numeral. Every other number (\<open>NaN\<close>,
  \<open>Infinity\<close>, a fraction, an integer beyond the safe range, which \<open>String\<close> may
  print in exponent form) is \<open>Other s\<close>, carried as the text \<open>s\<close> that \<open>String\<close>
  gives for it.
\<close>

datatype number = Num int | Other string

fun representable :: "number \<Rightarrow> bool" where
  "representable (Num n) = (\<bar>n\<bar> \<le> 9007199254740991)"
| "representable (Other s) = True"

fun digits :: "nat \<Rightarrow> string" where
  "digits n = (if n < 10 then [''0123456789'' ! n] else digits (n div 10) @ [''0123456789'' ! (n mod 10)])"

definition decimal :: "int \<Rightarrow> string" where
  "decimal n = (if n < 0 then CHR ''-'' # digits (nat (- n)) else digits (nat n))"

text \<open>\<open>String(x)\<close> for a number \<open>x\<close>.\<close>

fun String :: "number \<Rightarrow> string" where
  "String (Num n) = decimal n"
| "String (Other s) = s"

section \<open>Template renderer (config service)\<close>

record HostContext =
  ip :: string
  ipv6 :: "string option"
  region :: "string option"

record NodeConfigContext =
  ctx_id :: number
  ctx_name :: string
  ctx_domain :: string
  ctx_port :: number
  additionalPorts :: "number list"
  proxyType :: string
  ctx_host :: "HostContext option"

text \<open>
  \<open>context.host?.ip || ''\<close> and its siblings: an absent host, an absent field and an
  empty field all give the empty string.
\<close>

definition host_ip :: "NodeConfigContext \<Rightarrow> string" where
  "host_ip c = (case ctx_host c of None \<Rightarrow> [] | Some h \<Rightarrow> ip h)"

definition host_ipv6 :: "NodeConfigContext \<Rightarrow> string" where
  "host_ipv6 c = (case ctx_host c of None \<Rightarrow> [] | Some h \<Rightarrow> (case ipv6 h of None \<Rightarrow> [] | Some s \<Rightarrow> s))"

definition host_region :: "NodeConfigContext \<Rightarrow> string" where
  "host_region c = (case ctx_host c of None \<Rightarrow> [] | Some h \<Rightarrow> (case region h of None \<Rightarrow> [] | Some s \<Rightarrow> s))"

text \<open>The \<open>replacements\<close> object of \<open>replaceVariables\<close>, in its insertion order.\<close>

definition replacements :: "NodeConfigContext \<Rightarrow> (string \<times> string) list" where
  "replacements c =
     [(''{{NODE_ID}}'', String (ctx_id c)),
      (''{{NODE_NAME}}'', ctx_name c),
      (''{{DOMAIN}}'', ctx_domain c),
      (''{{PORT}}'', String (ctx_port c)),
      (''{{PROXY_TYPE}}'', proxyType c),
      (''{{HOST_IP}}'', host_ip c),
      (''{{HOST_IPV6}}'', host_ipv6 c),
      (''{{HOST_REGION}}'', host_region c),
      (''{{ADDITIONAL_PORTS}}'', join '','' (map String (additionalPorts c)))]"

text \<open>
  The loop \<open>for (const [key, value] of Object.entries(replacements)) result =
  result.split(key).join(value)\<close>, for any list of entries: one pass per entry over
  the text the passes before it left.
\<close>

definition substitute :: "(string \<times> string) list \<Rightarrow> string \<Rightarrow> string" where
  "substitute entries template = foldl (\<lambda>result (key, v). join v (split key result)) template entries"

definition replaceVariables :: "string \<Rightarrow> NodeConfigContext \<Rightarrow> string" where
  "replaceVariables template c = substitute (replacements c) template"

subsection \<open>Templates as token sequences\<close>

text \<open>
  A placeholder has the literal form \<open>{{NAME}}\<close>. The templates considered below are
  those in which every \<open>{{\<close> opens a placeholder: a sequence of tokens, each a stretch
  of literal text or a placeholder whose name has no brace. Literal text may hold single
  braces, as a JSON or nginx template does; it is \<open>plain\<close> when each \<open>{\<close> in it is
  followed, inside the stretch, by a character other than \<open>{\<close>, so it neither holds
  \<open>{{\<close> nor ends in \<open>{\<close>. \<open>flatten\<close> gives the template's text.
\<close>

definition placeholder :: "string \<Rightarrow> string" where
  "placeholder n = ''{{'' @ n @ ''}}''"

definition brace_free :: "string \<Rightarrow> bool" where
  "brace_free s = (CHR ''{'' \<notin> set s \<and> CHR ''}'' \<notin> set s)"

fun plain :: "string \<Rightarrow> bool" where
  "plain [] = True"
| "plain [c] = (c \<noteq> CHR ''{'')"
| "plain (c # d # s) = ((c \<noteq> CHR ''{'' \<or> d \<noteq> CHR ''{'') \<and> plain (d # s))"

datatype token = Lit string | Var string

fun token_text :: "token \<Rightarrow> string" where
  "token_text (Lit s) = s"
| "token_text (Var n) = placeholder n"

fun clean_token :: "token \<Rightarrow> bool" where
  "clean_token (Lit s) = plain s"
| "clean_token (Var n) = brace_free n"

definition flatten :: "token list \<Rightarrow> string" where
  "flatten ts = concat (map token_text ts)"

text \<open>
  The one-pass, simultaneous substitution the specification describes: every
  placeholder with an entry becomes its value, every other token stays.
\<close>

fun expand :: "(string \<rightharpoonup> string) \<Rightarrow> token \<Rightarrow> string" where
  "expand m (Lit s) = s"
| "expand m (Var n) = (case m (placeholder n) of Some v \<Rightarrow> v | None \<Rightarrow> placeholder n)"

fun expand_token :: "(string \<rightharpoonup> string) \<Rightarrow> token \<Rightarrow> token" where
  "expand_token m (Lit s) = Lit s"
| "expand_token m (Var n) = (case m (placeholder n) of Some v \<Rightarrow> Lit v | None \<Rightarrow> Var n)"

text \<open>What one pass of the loop does to the tokens, when the key is the placeholder \<open>n\<close>.\<close>

fun subst1 :: "string \<Rightarrow> string \<Rightarrow> token \<Rightarrow> token" where
  "subst1 n v (Lit s) = Lit s"
| "subst1 n v (Var n') = (if n' = n then Lit v else Var n')"

definition key_name :: "string \<Rightarrow> string" where
  "key_name k = take (length k - 4) (drop 2 k)"

definition placeholder_key :: "string \<Rightarrow> bool" where
  "placeholder_key k = (k = placeholder (key_name k) \<and> brace_free (key_name k))"

fun clean_entry :: "string \<times> string \<Rightarrow> bool" where
  "clean_entry (k, v) = (placeholder_key k \<and> plain v)"

text \<open>
  What the specification expects of the output, token by token, for a context with no
  linked host: the empty string at a host placeholder, the context's value at a node
  placeholder, and every other token as it stands.
\<close>

fun render_no_host :: "NodeConfigContext \<Rightarrow> token \<Rightarrow> string" where
  "render_no_host c (Lit s) = s"
| "render_no_host c (Var n) =
     (if n = ''HOST_IP'' then []
      else if n = ''HOST_IPV6'' then []
      else if n = ''HOST_REGION'' then []
      else if n = ''NODE_ID'' then String (ctx_id c)
      else if n = ''NODE_NAME'' then ctx_name c
      else if n = ''DOMAIN'' then ctx_domain c
      else if n = ''PORT'' then String (ctx_port c)
      else if n = ''PROXY_TYPE'' then proxyType c
      else if n = ''ADDITIONAL_PORTS'' then join '','' (map String (additionalPorts c))
      else placeholder n)"

section \<open>Availability monitor (monitor worker, host service, notifier)\<close>

text \<open>
  A numeric field of a host as the monitor reads it: a stored number (the columns are
  integer columns), SQL \<open>NULL\<close> (\<open>null\<close>), or a missing property
  (\<open>undefined\<close>).
\<close>

datatype field = Undefined | Null | Val int

record Host =
  name :: string
  status :: string
  lastHeartbeat :: field
  diskTotal :: field
  diskUsed :: field
  updatedAt :: int

text \<open>\<open>!x\<close> is false exactly for a non-zero number; \<open>x || 0\<close>; \<open>x\<close> as an operand of \<open>/\<close>.\<close>

fun truthy :: "field \<Rightarrow> bool" where
  "truthy (Val n) = (n \<noteq> 0)"
| "truthy Null = False"
| "truthy Undefined = False"

fun or_zero :: "field \<Rightarrow> int" where
  "or_zero (Val n) = n"
| "or_zero Null = 0"
| "or_zero Undefined = 0"

record MonitorConfig =
  hostHeartbeatTimeout :: int
  checkInterval :: int
  notifyOnHostOffline :: bool
  notifyOnLowDisk :: bool
  diskThreshold :: int

definition defaultConfig :: MonitorConfig where
  "defaultConfig = \<lparr>hostHeartbeatTimeout = 300, checkInterval = 60000,
     notifyOnHostOffline = True, notifyOnLowDisk = True, diskThreshold = 90\<rparr>"

text \<open>
  What a sweep does besides returning: the lines it logs and the notifications it hands
  to the notifier. A low-disk entry carries the two operands of the usage division
  \<open>(diskUsed / diskTotal) * 100\<close>, which determine the percentage.
\<close>

datatype event =
    LogDebug string
  | LogInfo string
  | LogWarn string
  | LogError string
  | LowDiskWarn string int int
  | HostOfflineNotification string int
  | LowDiskNotification string int int

text \<open>
  \<open>notifyHostOffline\<close> builds its message before it sends: for a non-zero heartbeat it
  evaluates \<open>new Date(lastHeartbeat * 1000).toISOString()\<close>, which throws a
  \<open>RangeError\<close> when the time value is outside the range of \<open>Date\<close>
  (8.64e15 milliseconds either side of the epoch). Sending itself catches its errors.
\<close>

definition valid_time :: "int \<Rightarrow> bool" where
  "valid_time t = (\<bar>t\<bar> \<le> 8640000000000000)"

definition notifyHostOffline :: "string \<Rightarrow> int \<Rightarrow> error + event" where
  "notifyHostOffline hostName last_heartbeat =
     (if last_heartbeat \<noteq> 0 \<and> \<not> valid_time (last_heartbeat * 1000)
      then Inl (RangeError ''Invalid Date'')
      else Inr (HostOfflineNotification hostName last_heartbeat))"

definition notifyLowDisk :: "string \<Rightarrow> int \<Rightarrow> int \<Rightarrow> event" where
  "notifyLowDisk hostName used capacity = LowDiskNotification hostName used capacity"

text \<open>
  Modelled from the spec: \<open>getHosts\<close>, which the monitor imports from the host service
  and the host service does not define (it has \<open>getAllHosts\<close>); the persisted-state
  boundary's list-hosts operation, here the rows of the hosts table.
\<close>

definition getHosts :: "Host list \<Rightarrow> Host list" where
  "getHosts db = db"

text \<open>
  \<open>markOfflineHosts\<close>: the SQL update \<open>SET status = 'offline', updated_at = now WHERE
  last_heartbeat < threshold AND status = 'online'\<close>. A \<open>NULL\<close> heartbeat compares
  to \<open>NULL\<close>, so such a row is not updated.
\<close>

definition goes_offline :: "int \<Rightarrow> Host \<Rightarrow> bool" where
  "goes_offline threshold h =
     ((case lastHeartbeat h of Val t \<Rightarrow> t < threshold | Null \<Rightarrow> False | Undefined \<Rightarrow> False)
      \<and> status h = ''online'')"

definition markOfflineHosts :: "int \<Rightarrow> int \<Rightarrow> Host list \<Rightarrow> event list \<times> Host list" where
  "markOfflineHosts timeoutSeconds now db =
     (let threshold = now - timeoutSeconds;
          result = filter (goes_offline threshold) db
      in ((if length result > 0
           then [LogInfo (''Marked '' @ String (Num (int (length result))) @ '' hosts as offline'')]
           else []),
          map (\<lambda>h. if goes_offline threshold h then h\<lparr>status := ''offline'', updatedAt := now\<rparr> else h) db))"

text \<open>
  The body of the loop of \<open>checkHostHeartbeats\<close> for one host: its events, and the error
  it throws if it throws. \<open>telegram\<close> is \<open>telegram.isEnabled()\<close>.
\<close>

definition checkHost :: "MonitorConfig \<Rightarrow> bool \<Rightarrow> int \<Rightarrow> Host \<Rightarrow> event list \<times> error option" where
  "checkHost config telegram now host =
     (if status host = ''offline'' then ([], None)
      else
        let last_heartbeat = or_zero (lastHeartbeat host);
            timeSinceHeartbeat = now - last_heartbeat
        in if timeSinceHeartbeat > hostHeartbeatTimeout config
           then (if notifyOnHostOffline config \<and> telegram
                 then (case notifyHostOffline (name host) last_heartbeat of
                         Inl e \<Rightarrow> ([LogWarn (''Host offline detected: '' @ name host)], Some e)
                       | Inr n \<Rightarrow> ([LogWarn (''Host offline detected: '' @ name host), n], None))
                 else ([LogWarn (''Host offline detected: '' @ name host)], None))
           else ([], None))"

text \<open>The loop: it stops at the first host whose body throws.\<close>

fun heartbeatLoop :: "MonitorConfig \<Rightarrow> bool \<Rightarrow> int \<Rightarrow> Host list \<Rightarrow> event list \<times> error option" where
  "heartbeatLoop config telegram now [] = ([], None)"
| "heartbeatLoop config telegram now (host # hosts) =
     (case checkHost config telegram now host of
        (evs, Some e) \<Rightarrow> (evs, Some e)
      | (evs, None) \<Rightarrow>
          (case heartbeatLoop config telegram now hosts of (evs', r) \<Rightarrow> (evs @ evs', r)))"

text \<open>
  \<open>checkHostHeartbeats\<close>: the loop, then \<open>markOfflineHosts\<close>, all inside one
  \<open>try\<close>; the \<open>catch\<close> logs and returns. \<open>now\<close> is the clock read before the
  loop, \<open>now'\<close> the clock read inside \<open>markOfflineHosts\<close>.
\<close>

definition checkHostHeartbeats ::
    "MonitorConfig \<Rightarrow> bool \<Rightarrow> int \<Rightarrow> int \<Rightarrow> Host list \<Rightarrow> event list \<times> Host list" where
  "checkHostHeartbeats config telegram now now' db =
     (case heartbeatLoop config telegram now (getHosts db) of
        (evs, Some e) \<Rightarrow> (evs @ [LogError ''Failed to check host heartbeats''], db)
      | (evs, None) \<Rightarrow>
          (case markOfflineHosts (hostHeartbeatTimeout config) now' db of
             (evs', db') \<Rightarrow> (evs @ evs', db')))"

text \<open>
  The disk check. The guard \<open>!host.diskTotal || host.diskUsed === undefined\<close> skips
  the host; otherwise the usage division is evaluated on \<open>diskUsed\<close> (\<open>null\<close> counts
  as 0) and \<open>diskTotal\<close>.
\<close>

datatype usage = Skipped | Usage int int

definition diskUsagePercent :: "Host \<Rightarrow> usage" where
  "diskUsagePercent host =
     (if \<not> truthy (diskTotal host) \<or> diskUsed host = Undefined then Skipped
      else Usage (or_zero (diskUsed host)) (or_zero (diskTotal host)))"

text \<open>
  The percentage is a floating-point number; the test \<open>(diskUsed / diskTotal) * 100
  >= threshold\<close> on it is a parameter \<open>reaches used capacity threshold\<close> of the check, so
  nothing proved here depends on how the division rounds.
\<close>

definition checkDisk ::
    "MonitorConfig \<Rightarrow> bool \<Rightarrow> (int \<Rightarrow> int \<Rightarrow> int \<Rightarrow> bool) \<Rightarrow> Host \<Rightarrow> event list" where
  "checkDisk config telegram reaches host =
     (case diskUsagePercent host of
        Skipped \<Rightarrow> []
      | Usage used capacity \<Rightarrow>
          if reaches used capacity (diskThreshold config)
          then LowDiskWarn (name host) used capacity #
               (if notifyOnLowDisk config \<and> telegram then [notifyLowDisk (name host) used capacity] else [])
          else [])"

fun checkDiskSpace ::
    "MonitorConfig \<Rightarrow> bool \<Rightarrow> (int \<Rightarrow> int \<Rightarrow> int \<Rightarrow> bool) \<Rightarrow> Host list \<Rightarrow> event list" where
  "checkDiskSpace config telegram reaches [] = []"
| "checkDiskSpace config telegram reaches (host # hosts) =
     checkDisk config telegram reaches host @ checkDiskSpace config telegram reaches hosts"

text \<open>\<open>logStatistics\<close>: logs the node statistics, or the failure to read them.\<close>

definition logStatistics :: "error + 'a \<Rightarrow> event list" where
  "logStatistics nodeStats =
     (case nodeStats of Inl e \<Rightarrow> [LogError ''Failed to log statistics'']
                      | Inr s \<Rightarrow> [LogDebug ''System statistics''])"

text \<open>\<open>runCheck\<close>, one sweep: the events in order, and the hosts table after it.\<close>

definition runCheck ::
    "MonitorConfig \<Rightarrow> bool \<Rightarrow> (int \<Rightarrow> int \<Rightarrow> int \<Rightarrow> bool) \<Rightarrow> int \<Rightarrow> int \<Rightarrow> Host list \<Rightarrow> error + 'a
       \<Rightarrow> event list \<times> Host list" where
  "runCheck config telegram reaches now now' db nodeStats =
     (case checkHostHeartbeats config telegram now now' db of
        (evs, db') \<Rightarrow>
          (LogDebug ''Running monitoring check'' # evs
             @ checkDiskSpace config telegram reaches (getHosts db')
             @ logStatistics nodeStats,
           db'))"

text \<open>For the statements below: a host at which the loop body throws.\<close>

definition throws :: "MonitorConfig \<Rightarrow> bool \<Rightarrow> int \<Rightarrow> Host \<Rightarrow> bool" where
  "throws config telegram now host = (snd (checkHost config telegram now host) \<noteq> None)"

text \<open>
  An instance of the threshold test, used only in the concrete sweeps below (usage 95 and
  10 of 100 against the threshold 90), where it agrees with the code. It is exact
  arithmetic and not the code's test in general: the code compares the double
  \<open>(diskUsed / diskTotal) * 100\<close>, and for 29 of 100 against the threshold 29 the
  double is 28.999999999999996, below the threshold, while the exact test holds.
\<close>

definition percent_reaches :: "int \<Rightarrow> int \<Rightarrow> int \<Rightarrow> bool" where
  "percent_reaches used capacity threshold = (threshold * capacity \<le> used * 100)"

section \<open>DNS provider (Cloudflare adapter)\<close>

text \<open>
  The adapter talks to the vendor through \<open>fetch\<close>. The four requests it sends are a
  datatype; the query strings and JSON bodies of the source are their fields.
\<close>

datatype request =
    ListZones string
  | ListRecords string string string
  | PutRecord string nat string
  | PostRecord string string string string

record VendorRecord =
  rec_id :: nat
  rec_zone :: string
  rec_type :: string
  rec_name :: string
  rec_content :: string

text \<open>
  What \<open>response.json()\<close> gives: the \<open>success\<close> flag and the \<open>result\<close> array
  (zone identifiers, or records). The adapter never reads the answer to a write.
\<close>

datatype response =
    Zones bool "string list"
  | Records bool "VendorRecord list"
  | Written bool

text \<open>
  A fault of one request: the transport fails and \<open>fetch\<close> rejects, or the vendor
  answers with an error (an HTTP error status and \<open>success: false\<close>), which \<open>fetch\<close>
  does not reject.
\<close>

datatype fault = TransportError | ApiError

text \<open>
  The vendor: its zones (name and identifier), its records, the identifier of the next
  record it creates, the faults of the upcoming requests (\<open>None\<close>, or nothing left,
  for a request that is served), and the requests received so far. It is the
  environment of the adapter: a record store that honours every request it serves.
\<close>

record Vendor =
  zones :: "(string \<times> string) list"
  records :: "VendorRecord list"
  nextId :: nat
  faults :: "fault option list"
  received :: "request list"

definition matches_record :: "string \<Rightarrow> string \<Rightarrow> string \<Rightarrow> VendorRecord \<Rightarrow> bool" where
  "matches_record z t n r = (rec_zone r = z \<and> rec_type r = t \<and> rec_name r = n)"

fun serve :: "request \<Rightarrow> Vendor \<Rightarrow> response \<times> Vendor" where
  "serve (ListZones n) v = (Zones True (map snd (filter (\<lambda>zn. fst zn = n) (zones v))), v)"
| "serve (ListRecords z t n) v = (Records True (filter (matches_record z t n) (records v)), v)"
| "serve (PutRecord z i c) v =
     (if list_ex (\<lambda>r. rec_zone r = z \<and> rec_id r = i) (records v)
      then (Written True,
            v\<lparr>records := map (\<lambda>r. if rec_zone r = z \<and> rec_id r = i then r\<lparr>rec_content := c\<rparr> else r)
                            (records v)\<rparr>)
      else (Written False, v))"
| "serve (PostRecord z t n c) v =
     (Written True,
      v\<lparr>records := records v @ [\<lparr>rec_id = nextId v, rec_zone = z, rec_type = t, rec_name = n,
                                 rec_content = c\<rparr>],
        nextId := Suc (nextId v)\<rparr>)"

fun refused :: "request \<Rightarrow> response" where
  "refused (ListZones n) = Zones False []"
| "refused (ListRecords z t n) = Records False []"
| "refused (PutRecord z i c) = Written False"
| "refused (PostRecord z t n c) = Written False"

definition fetch :: "request \<Rightarrow> Vendor \<Rightarrow> (error + response) \<times> Vendor" where
  "fetch rq v =
     (let v' = v\<lparr>received := received v @ [rq], faults := tl (faults v)\<rparr>
      in case faults v of
           Some TransportError # fs \<Rightarrow> (Inl (TypeError ''fetch failed''), v')
         | Some ApiError # fs \<Rightarrow> (Inr (refused rq), v')
         | None # fs \<Rightarrow> (case serve rq v' of (r, v'') \<Rightarrow> (Inr r, v''))
         | [] \<Rightarrow> (case serve rq v' of (r, v'') \<Rightarrow> (Inr r, v'')))"

record CloudflareProvider =
  apiToken :: string
  zoneId :: "string option"

text \<open>\<open>getBaseDomain\<close>: the last two labels of the domain.\<close>

definition getBaseDomain :: "string \<Rightarrow> string" where
  "getBaseDomain domain =
     (let parts = split ''.'' domain
      in if length parts \<ge> 2 then join ''.'' (drop (length parts - 2) parts) else domain)"

text \<open>
  \<open>getZoneId\<close> and \<open>findRecord\<close> catch every error of their request and return
  \<open>null\<close>; they also return \<open>null\<close> when the answer is not a success with a
  non-empty result. The log lines of the adapter are left out.
\<close>

definition getZoneId :: "CloudflareProvider \<Rightarrow> string \<Rightarrow> Vendor \<Rightarrow> string option \<times> Vendor" where
  "getZoneId p domain v =
     (case fetch (ListZones (getBaseDomain domain)) v of
        (Inr (Zones success (z # zs)), v') \<Rightarrow> (if success then Some z else None, v')
      | (other, v') \<Rightarrow> (None, v'))"

definition findRecord ::
    "CloudflareProvider \<Rightarrow> string \<Rightarrow> string \<Rightarrow> string \<Rightarrow> Vendor \<Rightarrow> VendorRecord option \<times> Vendor" where
  "findRecord p zone domain type v =
     (case fetch (ListRecords zone type domain) v of
        (Inr (Records success (r # rs)), v') \<Rightarrow> (if success then Some r else None, v')
      | (other, v') \<Rightarrow> (None, v'))"

text \<open>
  \<open>updateExistingRecord\<close> and \<open>createNewRecord\<close> await \<open>fetch\<close> and nothing else:
  they throw when \<open>fetch\<close> rejects, and return normally on any answer.
\<close>

definition updateExistingRecord ::
    "CloudflareProvider \<Rightarrow> string \<Rightarrow> nat \<Rightarrow> string \<Rightarrow> Vendor \<Rightarrow> (error + unit) \<times> Vendor" where
  "updateExistingRecord p zone recordId content v =
     (case fetch (PutRecord zone recordId content) v of
        (Inl e, v') \<Rightarrow> (Inl e, v')
      | (Inr r, v') \<Rightarrow> (Inr (), v'))"

definition createNewRecord ::
    "CloudflareProvider \<Rightarrow> string \<Rightarrow> string \<Rightarrow> string \<Rightarrow> string \<Rightarrow> Vendor \<Rightarrow> (error + unit) \<times> Vendor" where
  "createNewRecord p zone domain type content v =
     (case fetch (PostRecord zone type domain content) v of
        (Inl e, v') \<Rightarrow> (Inl e, v')
      | (Inr r, v') \<Rightarrow> (Inr (), v'))"

text \<open>
  \<open>this.zoneId || (await this.getZoneId(domain))\<close>: the configured identifier when it
  is a non-empty string, else the looked-up one. The result is falsy (\<open>!zoneId\<close>)
  when it is \<open>null\<close> or the empty string.
\<close>

definition resolveZone :: "CloudflareProvider \<Rightarrow> string \<Rightarrow> Vendor \<Rightarrow> string option \<times> Vendor" where
  "resolveZone p domain v =
     (case zoneId p of
        Some z \<Rightarrow> if z \<noteq> [] then (Some z, v) else getZoneId p domain v
      | None \<Rightarrow> getZoneId p domain v)"

text \<open>The \<open>try\<close> block of \<open>updateRecord\<close>, then \<open>updateRecord\<close> with its \<open>catch\<close>.\<close>

definition updateRecord_try ::
    "CloudflareProvider \<Rightarrow> string \<Rightarrow> string \<Rightarrow> string \<Rightarrow> Vendor \<Rightarrow> (error + bool) \<times> Vendor" where
  "updateRecord_try p domain type content v =
     (case resolveZone p domain v of
        (None, v1) \<Rightarrow> (Inl (Error ''Could not determine zone ID''), v1)
      | (Some zone, v1) \<Rightarrow>
          if zone = [] then (Inl (Error ''Could not determine zone ID''), v1)
          else
            (case findRecord p zone domain type v1 of
               (Some existingRecord, v2) \<Rightarrow>
                 (case updateExistingRecord p zone (rec_id existingRecord) content v2 of
                    (Inl e, v3) \<Rightarrow> (Inl e, v3)
                  | (Inr u, v3) \<Rightarrow> (Inr True, v3))
             | (None, v2) \<Rightarrow>
                 (case createNewRecord p zone domain type content v2 of
                    (Inl e, v3) \<Rightarrow> (Inl e, v3)
                  | (Inr u, v3) \<Rightarrow> (Inr True, v3))))"

definition updateRecord ::
    "CloudflareProvider \<Rightarrow> string \<Rightarrow> string \<Rightarrow> string \<Rightarrow> Vendor \<Rightarrow> bool \<times> Vendor" where
  "updateRecord p domain type content v =
     (case updateRecord_try p domain type content v of
        (Inl e, v') \<Rightarrow> (False, v')
      | (Inr b, v') \<Rightarrow> (b, v'))"

text \<open>\<open>getRecord\<close>: \<open>record?.content || null\<close> is \<open>null\<close> for an empty content too.\<close>

definition getRecord ::
    "CloudflareProvider \<Rightarrow> string \<Rightarrow> string \<Rightarrow> Vendor \<Rightarrow> string option \<times> Vendor" where
  "getRecord p domain type v =
     (case resolveZone p domain v of
        (None, v1) \<Rightarrow> (None, v1)
      | (Some zone, v1) \<Rightarrow>
          if zone = [] then (None, v1)
          else
            (case findRecord p zone domain type v1 of
               (Some r, v2) \<Rightarrow> (if rec_content r \<noteq> [] then Some (rec_content r) else None, v2)
             | (None, v2) \<Rightarrow> (None, v2)))"

text \<open>The writes among the requests the vendor received between two of its states.\<close>

fun is_write :: "request \<Rightarrow> bool" where
  "is_write (PutRecord z i c) = True"
| "is_write (PostRecord z t n c) = True"
| "is_write (ListZones n) = False"
| "is_write (ListRecords z t n) = False"

definition writes_since :: "Vendor \<Rightarrow> Vendor \<Rightarrow> request list" where
  "writes_since v v' = filter is_write (drop (length (received v)) (received v'))"

text \<open>What a served \<open>PutRecord\<close> does to one record of the vendor.\<close>

definition put_content :: "string \<Rightarrow> nat \<Rightarrow> string \<Rightarrow> VendorRecord \<Rightarrow> VendorRecord" where
  "put_content z i c r = (if rec_zone r = z \<and> rec_id r = i then r\<lparr>rec_content := c\<rparr> else r)"

section \<open>DNS service and the reconciliation queue (DNS worker)\<close>

record DnsUpdateRequest =
  req_nodeId :: int
  req_domain :: string
  req_type :: string
  req_value :: string

record DnsCheckRequest =
  chk_domain :: string
  expectedValue :: "string option"

record DnsCheckResult =
  res_domain :: string
  currentValue :: "string option"
  matches :: bool

text \<open>A row of the \<open>dns_records\<close> table.\<close>

record DnsRow =
  row_id :: int
  row_nodeId :: int
  row_domain :: string
  row_type :: string
  row_value :: string
  isActive :: bool
  lastChecked :: "int option"
  lastUpdated :: "int option"
  createdAt :: int
  row_updatedAt :: int

text \<open>
  What the service works on: the module's \<open>defaultProvider\<close> (\<open>null\<close> until
  \<open>initializeDnsProvider\<close> has run), the vendor behind it, the \<open>dns_records\<close>
  table, the identifiers of the \<open>nodes\<close> table (the target of the foreign key
  \<open>dns_records.node_id\<close>, which the database enforces), the clock in seconds, and the
  lines logged by the service and the worker.
\<close>

record Hub =
  defaultProvider :: "CloudflareProvider option"
  vendor :: Vendor
  dnsRecords :: "DnsRow list"
  nodeIds :: "int list"
  clock :: int
  journal :: "event list"

definition logged :: "event \<Rightarrow> Hub \<Rightarrow> Hub" where
  "logged e w = w\<lparr>journal := journal w @ [e]\<rparr>"

definition next_row_id :: "DnsRow list \<Rightarrow> int" where
  "next_row_id rows = fold max (map row_id rows) 0 + 1"

text \<open>
  The \<open>try\<close> block of \<open>updateDnsRecord\<close>. The insert throws when the request's node
  is not a row of \<open>nodes\<close> (the foreign key fails); the provider call itself never
  throws.
\<close>

definition updateDnsRecord_try :: "DnsUpdateRequest \<Rightarrow> Hub \<Rightarrow> (error + bool) \<times> Hub" where
  "updateDnsRecord_try request w =
     (case defaultProvider w of
        None \<Rightarrow> (Inl (Error ''DNS provider not initialized''), w)
      | Some provider \<Rightarrow>
          let node = take 1 (filter (\<lambda>r. row_nodeId r = req_nodeId request) (dnsRecords w))
          in (case updateRecord provider (req_domain request) (req_type request) (req_value request)
                     (vendor w) of
                (success, vendor') \<Rightarrow>
                  let w1 = w\<lparr>vendor := vendor'\<rparr>; now = clock w1
                  in if success
                     then (case node of
                             r # rs \<Rightarrow>
                               (Inr True,
                                logged (LogInfo (''DNS record updated: '' @ req_domain request
                                                  @ '' -> '' @ req_value request))
                                  (w1\<lparr>dnsRecords :=
                                        map (\<lambda>x. if row_id x = row_id r
                                                  then x\<lparr>row_domain := req_domain request,
                                                         row_type := req_type request,
                                                         row_value := req_value request,
                                                         lastUpdated := Some now,
                                                         row_updatedAt := now\<rparr>
                                                  else x)
                                            (dnsRecords w1)\<rparr>))
                           | [] \<Rightarrow>
                               if req_nodeId request \<in> set (nodeIds w1)
                               then (Inr True,
                                     logged (LogInfo (''DNS record updated: '' @ req_domain request
                                                       @ '' -> '' @ req_value request))
                                       (w1\<lparr>dnsRecords := dnsRecords w1 @
                                             [\<lparr>row_id = next_row_id (dnsRecords w1),
                                               row_nodeId = req_nodeId request,
                                               row_domain = req_domain request,
                                               row_type = req_type request,
                                               row_value = req_value request,
                                               isActive = True,
                                               lastChecked = Some now,
                                               lastUpdated = Some now,
                                               createdAt = now,
                                               row_updatedAt = now\<rparr>]\<rparr>))
                               else (Inl (Error ''FOREIGN KEY constraint failed''), w1))
                     else (Inr False, w1)))"

text \<open>\<open>updateDnsRecord\<close>: its \<open>catch\<close> logs the error and throws it again.\<close>

definition updateDnsRecord :: "DnsUpdateRequest \<Rightarrow> Hub \<Rightarrow> (error + bool) \<times> Hub" where
  "updateDnsRecord request w =
     (case updateDnsRecord_try request w of
        (Inl e, w') \<Rightarrow>
          (Inl e, logged (LogError (''Failed to update DNS record for '' @ req_domain request)) w')
      | (Inr b, w') \<Rightarrow> (Inr b, w'))"

text \<open>
  \<open>checkDnsRecord\<close>: \<open>request.expectedValue ? currentValue === request.expectedValue :
  true\<close>; an absent and an empty expected value are both falsy.
\<close>

definition checkDnsRecord_try :: "DnsCheckRequest \<Rightarrow> Hub \<Rightarrow> (error + DnsCheckResult) \<times> Hub" where
  "checkDnsRecord_try request w =
     (case defaultProvider w of
        None \<Rightarrow> (Inl (Error ''DNS provider not initialized''), w)
      | Some provider \<Rightarrow>
          (case getRecord provider (chk_domain request) ''A'' (vendor w) of
             (current, vendor') \<Rightarrow>
               (Inr \<lparr>res_domain = chk_domain request,
                     currentValue = current,
                     matches = (case expectedValue request of
                                  None \<Rightarrow> True
                                | Some expected \<Rightarrow> if expected \<noteq> [] then current = Some expected else True)\<rparr>,
                w\<lparr>vendor := vendor'\<rparr>)))"

definition checkDnsRecord :: "DnsCheckRequest \<Rightarrow> Hub \<Rightarrow> (error + DnsCheckResult) \<times> Hub" where
  "checkDnsRecord request w =
     (case checkDnsRecord_try request w of
        (Inl e, w') \<Rightarrow>
          (Inl e, logged (LogError (''Failed to check DNS record for '' @ chk_domain request)) w')
      | (Inr res, w') \<Rightarrow> (Inr res, w'))"

subsection \<open>The worker and its queue\<close>

text \<open>
  Modelled from the spec: the queue itself. It is the library p-queue, a dependency whose
  code is not under src/; the worker only constructs it, subscribes to two of its events
  and calls \<open>add\<close>, \<open>pause\<close>, \<open>start\<close> and \<open>clear\<close>. From the specification (4.3)
  and the events the worker subscribes to: tasks are admitted in FIFO order; a task that
  is admitted waits until it is started; a paused queue starts no task, so the promises
  of its waiting tasks stay pending; with concurrency 1 one task executes at a time, to
  its end, in admission order; the promise \<open>add\<close> returned settles as its task does;
  a task that throws makes the queue emit \<open>error\<close> and go on with the next waiting
  task; the queue emits \<open>idle\<close> when no task waits or executes. The timing (the
  interval) is not modelled, and neither is the execution of overlapping tasks: for a
  concurrency other than 1 the model gives no answer (\<open>None\<close>).

  The worker holds the queue's configuration and state, and the lines its own logger
  wrote. A continuation that runs after an \<open>await\<close> is scheduled among the steps
  of the queue, so the order of the worker's log lines depends on that scheduling; the
  log is kept as a multiset, without an order.
\<close>

record DnsWorker =
  concurrency :: nat
  interval :: nat
  isPaused :: bool
  waiting :: "DnsUpdateRequest list"
  workerLog :: "event multiset"



definition noted :: "event \<Rightarrow> DnsWorker \<Rightarrow> DnsWorker" where
  "noted e wk = wk\<lparr>workerLog := add_mset e (workerLog wk)\<rparr>"

text \<open>The state of the promise \<open>addUpdateTask\<close> returns; it is never rejected.\<close>

datatype promise = Pending | Fulfilled bool

text \<open>The task \<open>addUpdateTask\<close> hands to the queue.\<close>

definition update_task ::
    "DnsUpdateRequest \<Rightarrow> DnsWorker \<Rightarrow> Hub \<Rightarrow> (error + bool) \<times> DnsWorker \<times> Hub" where
  "update_task request wk w =
     (case updateDnsRecord request w of
        (outcome, w') \<Rightarrow>
          (outcome,
           noted (LogInfo (''Processing DNS update: '' @ req_domain request
                            @ '' ('' @ req_type request @ '')'')) wk,
           w'))"

text \<open>
  The queue executing the tasks that wait, first in, first out: each is taken from the
  waiting tasks, executed to its end, and the promise of its \<open>add\<close> settled: rejected
  with the task's error, after which the \<open>error\<close> listener of the worker logs, or
  fulfilled with the task's result. When none is left the \<open>idle\<close> listener logs.
\<close>

fun run_tasks ::
    "DnsUpdateRequest list \<Rightarrow> DnsWorker \<Rightarrow> Hub \<Rightarrow> (error + bool option) list \<times> DnsWorker \<times> Hub" where
  "run_tasks [] wk w = ([], wk, w)"
| "run_tasks (request # rest) wk w =
     (case update_task request (wk\<lparr>waiting := tl (waiting wk)\<rparr>) w of
        (Inl e, wk1, w1) \<Rightarrow>
          (case run_tasks rest (noted (LogError ''DNS queue error'') wk1) w1 of
             (settled, wk2, w2) \<Rightarrow> (Inl e # settled, wk2, w2))
      | (Inr result, wk1, w1) \<Rightarrow>
          (case run_tasks rest wk1 w1 of
             (settled, wk2, w2) \<Rightarrow> (Inr (Some result) # settled, wk2, w2)))"

definition drain :: "DnsWorker \<Rightarrow> Hub \<Rightarrow> (error + bool option) list \<times> DnsWorker \<times> Hub" where
  "drain wk w =
     (case run_tasks (waiting wk) wk w of
        (settled, wk', w') \<Rightarrow> (settled, noted (LogDebug ''DNS queue is idle'') wk', w'))"

text \<open>
  \<open>addUpdateTask\<close> after its \<open>await\<close>: \<open>return result || false\<close> when the promise
  of \<open>add\<close> was fulfilled, and the \<open>catch\<close>, which logs and returns \<open>false\<close>,
  when it was rejected.
\<close>

fun settle :: "error + bool option \<Rightarrow> bool" where
  "settle (Inl e) = False"
| "settle (Inr None) = False"
| "settle (Inr (Some result)) = result"

definition resolved :: "DnsUpdateRequest \<Rightarrow> error + bool option \<Rightarrow> DnsWorker \<Rightarrow> promise \<times> DnsWorker" where
  "resolved request settled wk =
     (case settled of
        Inl e \<Rightarrow>
          (Fulfilled False,
           noted (LogError (''Failed to queue DNS update for '' @ req_domain request)) wk)
      | Inr result \<Rightarrow> (Fulfilled (settle (Inr result)), wk))"

fun resolved_all ::
    "DnsUpdateRequest list \<Rightarrow> (error + bool option) list \<Rightarrow> DnsWorker \<Rightarrow> promise list \<times> DnsWorker" where
  "resolved_all [] ss wk = ([], wk)"
| "resolved_all (request # requests) [] wk =
     (case resolved_all requests [] wk of (ps, wk') \<Rightarrow> (Pending # ps, wk'))"
| "resolved_all (request # requests) (s # ss) wk =
     (case resolved request s wk of
        (p, wk1) \<Rightarrow> (case resolved_all requests ss wk1 of (ps, wk2) \<Rightarrow> (p # ps, wk2)))"

text \<open>
  \<open>addUpdateTask\<close>: the task is admitted; on a started queue the waiting tasks are
  executed and the promise is resolved from the settlement of its own task.
\<close>

definition addUpdateTask ::
    "DnsUpdateRequest \<Rightarrow> DnsWorker \<Rightarrow> Hub \<Rightarrow> (promise \<times> DnsWorker \<times> Hub) option" where
  "addUpdateTask request wk w =
     (if concurrency wk \<noteq> 1 then None
      else
        let admitted = wk\<lparr>waiting := waiting wk @ [request]\<rparr>
        in if isPaused admitted then Some (Pending, admitted, w)
           else
             (case drain admitted w of
                (settled, wk1, w1) \<Rightarrow>
                  (case drop (length (waiting wk)) settled of
                     [] \<Rightarrow> Some (Pending, wk1, w1)
                   | s # ss \<Rightarrow>
                       (case resolved request s wk1 of (p, wk2) \<Rightarrow> Some (p, wk2, w1)))))"

text \<open>
  \<open>addUpdateTasks\<close>: \<open>requests.map\<close> calls \<open>addUpdateTask\<close> for every request
  before any task has ended, so all the requests are admitted, in order, before the
  queue executes them; \<open>Promise.all\<close> keeps the results in the order of the requests.
\<close>

definition addUpdateTasks ::
    "DnsUpdateRequest list \<Rightarrow> DnsWorker \<Rightarrow> Hub \<Rightarrow> (promise list \<times> DnsWorker \<times> Hub) option" where
  "addUpdateTasks requests wk w =
     (if concurrency wk \<noteq> 1 then None
      else
        let admitted = wk\<lparr>waiting := waiting wk @ requests\<rparr>
        in if isPaused admitted then Some (map (\<lambda>r. Pending) requests, admitted, w)
           else
             (case drain admitted w of
                (settled, wk1, w1) \<Rightarrow>
                  (case resolved_all requests (drop (length (waiting wk)) settled) wk1 of
                     (ps, wk2) \<Rightarrow> Some (ps, wk2, w1))))"

text \<open>
  For the statements below: the worker after the queue has executed one task, and the
  settlement of the promise of \<open>add\<close> for a task's outcome.
\<close>

definition after_task :: "DnsUpdateRequest \<Rightarrow> DnsWorker \<Rightarrow> Hub \<Rightarrow> DnsWorker" where
  "after_task request wk w =
     (let wk1 = noted (LogInfo (''Processing DNS update: '' @ req_domain request @ '' ('' @ req_type request @ '')''))
                  (wk\<lparr>waiting := tl (waiting wk)\<rparr>)
      in case fst (updateDnsRecord request w) of
           Inl e \<Rightarrow> noted (LogError ''DNS queue error'') wk1
         | Inr r \<Rightarrow> wk1)"

fun settlement :: "error + bool \<Rightarrow> error + bool option" where
  "settlement (Inl e) = Inl e"
| "settlement (Inr r) = Inr (Some r)"

section \<open>Properties of the template renderer\<close>

lemma split_from_nonempty: "split_from sep acc s \<noteq> []"
  by (induction sep acc s rule: split_from.induct) auto

lemma join_Cons: "rest \<noteq> [] \<Longrightarrow> join v (x # rest) = x @ v @ join v rest"
  by (cases rest) auto

lemma placeholder_Cons: "placeholder n = CHR ''{'' # CHR ''{'' # n @ ''}}''"
  by (simp add: placeholder_def)

lemma brace_free_plain: "brace_free s \<Longrightarrow> plain s"
  by (induction s rule: plain.induct) (auto simp: brace_free_def)

lemma split_from_literal:
  "plain s \<Longrightarrow> split_from (placeholder n) acc (s @ rest) = split_from (placeholder n) (acc @ s) rest"
proof (induction s arbitrary: acc rule: plain.induct)
  case 1
  then show ?case by simp
next
  case (2 c)
  then have "\<not> prefix (placeholder n) (c # rest)"
    by (auto simp: placeholder_Cons)
  then show ?case by simp
next
  case (3 c d s)
  then have "\<not> prefix (placeholder n) (c # d # s @ rest)"
    by (auto simp: placeholder_Cons)
  moreover from 3 have "split_from (placeholder n) (acc @ [c]) ((d # s) @ rest)
      = split_from (placeholder n) ((acc @ [c]) @ d # s) rest"
    by simp
  ultimately show ?case by simp
qed

lemma split_from_same:
  "split_from (placeholder n) acc (placeholder n @ rest) = acc # split_from (placeholder n) [] rest"
proof -
  have "placeholder n @ rest = CHR ''{'' # (CHR ''{'' # n @ ''}}'' @ rest)"
    by (simp add: placeholder_Cons)
  moreover have "prefix (placeholder n) (placeholder n @ rest)" by simp
  moreover have "placeholder n \<noteq> []" by (simp add: placeholder_Cons)
  moreover have "drop (length (placeholder n)) (placeholder n @ rest) = rest" by simp
  ultimately show ?thesis
    by (metis split_from.simps(2))
qed

lemma name_prefix_eq:
  "brace_free n \<Longrightarrow> brace_free n' \<Longrightarrow> prefix (n @ CHR ''}'' # t) (n' @ CHR ''}'' # t') \<Longrightarrow> n = n'"
proof (induction n arbitrary: n')
  case Nil
  then show ?case by (cases n') (auto simp: brace_free_def)
next
  case (Cons a n)
  then show ?case by (cases n') (auto simp: brace_free_def)
qed

lemma split_from_other:
  assumes "brace_free n" "brace_free n'" "n' \<noteq> n"
  shows "split_from (placeholder n) acc (placeholder n' @ rest) = split_from (placeholder n) (acc @ placeholder n') rest"
proof -
  let ?k = "placeholder n"
  have no0: "\<not> prefix ?k (placeholder n' @ rest)"
  proof
    assume "prefix ?k (placeholder n' @ rest)"
    then have "prefix (n @ CHR ''}'' # ''}'') (n' @ CHR ''}'' # (''}'' @ rest))"
      by (simp add: placeholder_Cons)
    from name_prefix_eq[OF assms(1,2) this] assms(3) show False by simp
  qed
  have no1: "\<not> prefix ?k (CHR ''{'' # n' @ ''}}'' @ rest)"
    using assms(2) by (cases n') (auto simp: placeholder_Cons brace_free_def)
  have step0: "split_from ?k acc (placeholder n' @ rest) = split_from ?k (acc @ ''{'') (CHR ''{'' # n' @ ''}}'' @ rest)"
    using no0 by (simp add: placeholder_Cons)
  have step1: "split_from ?k (acc @ ''{'') (CHR ''{'' # n' @ ''}}'' @ rest) = split_from ?k (acc @ ''{{'') (n' @ ''}}'' @ rest)"
    using no1 by simp
  have step2: "split_from ?k (acc @ ''{{'') (n' @ ''}}'' @ rest) = split_from ?k (acc @ ''{{'' @ n') (''}}'' @ rest)"
    using split_from_literal[OF brace_free_plain[OF assms(2)], of n "acc @ ''{{''" "''}}'' @ rest"] by simp
  have step3: "split_from ?k (acc @ ''{{'' @ n') (''}}'' @ rest) = split_from ?k (acc @ ''{{'' @ n' @ ''}}'') rest"
    using split_from_literal[of "''}}''" n "acc @ ''{{'' @ n'" rest] by simp
  show ?thesis
    using step0 step1 step2 step3 by (simp add: placeholder_def)
qed

lemma pass_tokens:
  assumes "brace_free n"
  shows "list_all clean_token ts \<Longrightarrow>
    join v (split_from (placeholder n) acc (flatten ts)) = acc @ flatten (map (subst1 n v) ts)"
proof (induction ts arbitrary: acc)
  case Nil
  then show ?case by (simp add: flatten_def)
next
  case (Cons t ts)
  then have IH: "\<And>acc. join v (split_from (placeholder n) acc (flatten ts)) = acc @ flatten (map (subst1 n v) ts)"
    by simp
  show ?case
  proof (cases t)
    case (Lit s)
    with Cons.prems have "plain s" by simp
    from split_from_literal[OF this] IH Lit show ?thesis by (simp add: flatten_def)
  next
    case (Var n')
    show ?thesis
    proof (cases "n' = n")
      case True
      then show ?thesis
        using Var IH[of "[]"] split_from_same[of n acc "flatten ts"]
        by (simp add: flatten_def join_Cons split_from_nonempty)
    next
      case False
      with Cons.prems Var have "brace_free n'" by simp
      from split_from_other[OF assms this False] IH Var False show ?thesis
        by (simp add: flatten_def)
    qed
  qed
qed

lemma pieces_single:
  assumes "brace_free n"
  shows "list_all clean_token ts \<Longrightarrow> Var n \<notin> set ts \<Longrightarrow>
    split_from (placeholder n) acc (flatten ts) = [acc @ flatten ts]"
proof (induction ts arbitrary: acc)
  case Nil
  then show ?case by (simp add: flatten_def)
next
  case (Cons t ts)
  then have IH: "\<And>acc. split_from (placeholder n) acc (flatten ts) = [acc @ flatten ts]"
    by simp
  show ?case
  proof (cases t)
    case (Lit s)
    with Cons.prems have "plain s" by simp
    from split_from_literal[OF this] IH Lit show ?thesis by (simp add: flatten_def)
  next
    case (Var n')
    with Cons.prems have "n' \<noteq> n" "brace_free n'" by auto
    from split_from_other[OF assms this(2,1)] IH Var show ?thesis
      by (simp add: flatten_def)
  qed
qed

lemma split_from_sublist:
  "sep \<noteq> [] \<Longrightarrow> sublist sep s \<Longrightarrow> 2 \<le> length (split_from sep acc s)"
proof (induction sep acc s rule: split_from.induct)
  case (1 sep acc)
  then show ?case by simp
next
  case (2 sep acc c cs)
  show ?case
  proof (cases "prefix sep (c # cs)")
    case True
    with 2 show ?thesis
      using split_from_nonempty[of sep "[]" "drop (length sep) (c # cs)"]
      by (cases "split_from sep [] (drop (length sep) (c # cs))") auto
  next
    case False
    with 2 show ?thesis by (auto simp: sublist_Cons_right)
  qed
qed

lemma key_name_placeholder: "key_name (placeholder n) = n"
  by (simp add: key_name_def placeholder_def)

lemma placeholder_inject: "placeholder n = placeholder n' \<longleftrightarrow> n = n'"
  by (simp add: placeholder_def)

lemma clean_subst1:
  "plain v \<Longrightarrow> list_all clean_token ts \<Longrightarrow> list_all clean_token (map (subst1 n v) ts)"
proof (induction ts)
  case Nil
  then show ?case by simp
next
  case (Cons t ts)
  then show ?case by (cases t) auto
qed

lemma substitute_tokens:
  "list_all clean_entry rs \<Longrightarrow> list_all clean_token ts \<Longrightarrow>
     substitute rs (flatten ts) = concat (map (expand (map_of rs)) ts)"
proof (induction rs arbitrary: ts)
  case Nil
  have "expand Map.empty t = token_text t" for t by (cases t) auto
  then have "expand Map.empty = token_text" by (rule ext)
  then show ?case by (simp add: substitute_def flatten_def)
next
  case (Cons r rs)
  obtain k v where r: "r = (k, v)" by (cases r)
  define n where "n = key_name k"
  from Cons.prems(1) r have k: "k = placeholder n" and bn: "brace_free n" and bv: "plain v"
    by (auto simp: placeholder_key_def n_def)
  have kne: "k \<noteq> []" by (simp add: k placeholder_Cons)
  have pass: "join v (split k (flatten ts)) = flatten (map (subst1 n v) ts)"
    using pass_tokens[OF bn Cons.prems(2), of v "[]"] kne by (simp add: split_def k)
  have clean': "list_all clean_token (map (subst1 n v) ts)"
    by (rule clean_subst1[OF bv Cons.prems(2)])
  from Cons.prems(1) have rs: "list_all clean_entry rs" by simp
  have "substitute (r # rs) (flatten ts) = substitute rs (join v (split k (flatten ts)))"
    by (simp add: substitute_def r)
  also have "\<dots> = concat (map (expand (map_of rs)) (map (subst1 n v) ts))"
    using Cons.IH[OF rs clean'] pass by simp
  also have "\<dots> = concat (map (expand (map_of (r # rs))) ts)"
  proof -
    have "expand (map_of rs) (subst1 n v t) = expand (map_of (r # rs)) t" for t
      by (cases t) (auto simp: r k placeholder_inject)
    then have "(\<lambda>t. expand (map_of rs) (subst1 n v t)) = expand (map_of (r # rs))"
      by (rule ext)
    then show ?thesis by (simp add: comp_def)
  qed
  finally show ?case .
qed

lemma expand_as_token: "expand m t = token_text (expand_token m t)"
  by (cases t) (auto split: option.splits)

lemma no_occurrence:
  assumes bn: "brace_free n" and clean: "list_all clean_token ts" and absent: "Var n \<notin> set ts"
  shows "\<not> sublist (placeholder n) (flatten ts)"
proof
  assume "sublist (placeholder n) (flatten ts)"
  moreover have "placeholder n \<noteq> []" by (simp add: placeholder_Cons)
  ultimately have "2 \<le> length (split_from (placeholder n) [] (flatten ts))"
    by (rule split_from_sublist[rotated])
  with pieces_single[OF bn clean absent, of "[]"] show False by simp
qed

lemma output_has_no_known_key:
  assumes entries: "list_all clean_entry rs" and clean: "list_all clean_token ts"
    and known: "k \<in> fst ` set rs"
  shows "\<not> sublist k (concat (map (expand (map_of rs)) ts))"
proof -
  define n where "n = key_name k"
  from known obtain v where kv: "(k, v) \<in> set rs" by auto
  with entries have "clean_entry (k, v)" by (auto simp: list_all_iff)
  then have k: "k = placeholder n" and bn: "brace_free n"
    by (auto simp: placeholder_key_def n_def)
  let ?ts = "map (expand_token (map_of rs)) ts"
  have "expand (map_of rs) = (\<lambda>t. token_text (expand_token (map_of rs) t))"
    by (rule ext) (rule expand_as_token)
  then have out: "concat (map (expand (map_of rs)) ts) = flatten ?ts"
    by (simp add: flatten_def comp_def)
  have vals: "\<And>x w. map_of rs x = Some w \<Longrightarrow> plain w"
  proof -
    fix x w assume "map_of rs x = Some w"
    then have "(x, w) \<in> set rs" by (rule map_of_SomeD)
    with entries have "clean_entry (x, w)" by (auto simp: list_all_iff)
    then show "plain w" by simp
  qed
  have clean': "list_all clean_token ?ts"
    unfolding list_all_iff
  proof
    fix t' assume "t' \<in> set ?ts"
    then obtain t where t: "t \<in> set ts" and t': "t' = expand_token (map_of rs) t" by auto
    from clean t have ct: "clean_token t" by (simp add: list_all_iff)
    show "clean_token t'"
      using ct vals unfolding t' by (cases t) (auto split: option.splits)
  qed
  have "map_of rs k \<noteq> None"
    using known by (simp add: map_of_eq_None_iff)
  then have absent: "Var n \<notin> set ?ts"
  proof -
    assume some: "map_of rs k \<noteq> None"
    show ?thesis
    proof
      assume "Var n \<in> set ?ts"
      then obtain t where "Var n = expand_token (map_of rs) t" by auto
      then show False using some k by (cases t) (auto split: option.splits)
    qed
  qed
  from no_occurrence[OF bn clean' absent] show ?thesis by (simp add: out k)
qed

lemma map_of_mset:
  assumes "mset rs = mset rs'" "distinct (map fst rs')"
  shows "map_of rs = map_of rs'"
proof -
  from assms(1) have "mset (map fst rs) = mset (map fst rs')" by simp
  then have "distinct (map fst rs)" using assms(2) by (metis distinct_count_atmost_1 set_mset_mset)
  moreover have "set rs = set rs'" using assms(1) by (rule mset_eq_setD)
  ultimately show ?thesis using assms(2) by (simp add: map_of_inject_set)
qed

lemma replacements_keys:
  "map fst (replacements c) =
     [''{{NODE_ID}}'', ''{{NODE_NAME}}'', ''{{DOMAIN}}'', ''{{PORT}}'', ''{{PROXY_TYPE}}'',
      ''{{HOST_IP}}'', ''{{HOST_IPV6}}'', ''{{HOST_REGION}}'', ''{{ADDITIONAL_PORTS}}'']"
  by (simp add: replacements_def)

lemma replacements_keys_placeholder:
  "list_all placeholder_key (map fst (replacements c))"
  unfolding replacements_keys
  by (simp add: placeholder_key_def key_name_def placeholder_def brace_free_def)

lemma replacements_keys_distinct: "distinct (map fst (replacements c))"
  unfolding replacements_keys by simp

lemma clean_entry_iff: "list_all clean_entry rs \<longleftrightarrow> list_all placeholder_key (map fst rs) \<and> list_all plain (map snd rs)"
  by (induction rs) auto


lemma replacements_placeholders:
  "replacements c =
     [(placeholder ''NODE_ID'', String (ctx_id c)),
      (placeholder ''NODE_NAME'', ctx_name c),
      (placeholder ''DOMAIN'', ctx_domain c),
      (placeholder ''PORT'', String (ctx_port c)),
      (placeholder ''PROXY_TYPE'', proxyType c),
      (placeholder ''HOST_IP'', host_ip c),
      (placeholder ''HOST_IPV6'', host_ipv6 c),
      (placeholder ''HOST_REGION'', host_region c),
      (placeholder ''ADDITIONAL_PORTS'', join '','' (map String (additionalPorts c)))]"
  by (simp add: replacements_def placeholder_def)

lemma expand_no_host:
  assumes "ctx_host c = None"
  shows "expand (map_of (replacements c)) t = render_no_host c t"
proof (cases t)
  case (Lit s)
  then show ?thesis by simp
next
  case (Var n)
  then show ?thesis
    using assms
    by (simp add: replacements_placeholders placeholder_inject host_ip_def host_ipv6_def host_region_def)
qed

text \<open>
  Claim C7, as amended. \<open>replaceVariables\<close> runs one pass per key, in the fixed order
  of \<open>replacements\<close>, and each pass scans the text the earlier passes produced. Take
  a template in which every \<open>{{\<close> opens a placeholder and no stretch of literal text
  ends in \<open>{\<close> (single braces are allowed), and a context whose substituted values
  hold no \<open>{{\<close> and do not end in \<open>{\<close> and whose numbers are safe integers or carry
  their printed text. Then the passes cannot interfere: the output is the one-pass
  simultaneous substitution, it is the same for every processing order of the entries,
  and no known key remains in it.
\<close>

theorem replaceVariables_clean_template:
  assumes template: "list_all clean_token ts"
    and vals: "list_all plain (map snd (replacements c))"
    and numbers: "list_all representable (ctx_id c # ctx_port c # additionalPorts c)"
    and order: "mset entries = mset (replacements c)"
  shows "substitute entries (flatten ts) = replaceVariables (flatten ts) c
       \<and> replaceVariables (flatten ts) c = concat (map (expand (map_of (replacements c))) ts)
       \<and> (\<forall>k \<in> set (map fst (replacements c)). \<not> sublist k (replaceVariables (flatten ts) c))"
proof -
  have clean: "list_all clean_entry (replacements c)"
    using vals replacements_keys_placeholder by (simp add: clean_entry_iff)
  have "set entries = set (replacements c)"
    using order by (rule mset_eq_setD)
  with clean have clean': "list_all clean_entry entries"
    by (simp add: list_all_iff)
  have same: "map_of entries = map_of (replacements c)"
    using order replacements_keys_distinct by (rule map_of_mset)
  have source: "replaceVariables (flatten ts) c = concat (map (expand (map_of (replacements c))) ts)"
    unfolding replaceVariables_def by (rule substitute_tokens[OF clean template])
  have any: "substitute entries (flatten ts) = concat (map (expand (map_of (replacements c))) ts)"
    using substitute_tokens[OF clean' template] same by simp
  have none: "\<not> sublist k (replaceVariables (flatten ts) c)" if "k \<in> set (map fst (replacements c))" for k
    using output_has_no_known_key[OF clean template, of k] that source by simp
  from source any none show ?thesis by simp
qed

theorem replaceVariables_clean_template_witness:
  "substitute (rev (replacements \<lparr>ctx_id = Num 1, ctx_name = ''node-1'', ctx_domain = ''a.example.com'',
        ctx_port = Num 443, additionalPorts = [Num 8443], proxyType = ''vless'', ctx_host = None\<rparr>))
      ''server { listen {{PORT}}; server_name {{DOMAIN}}; set $ip [{{HOST_IP}}]; {{UNKNOWN}} {} }}''
    = ''server { listen 443; server_name a.example.com; set $ip []; {{UNKNOWN}} {} }}''
   \<and> replaceVariables ''server { listen {{PORT}}; server_name {{DOMAIN}}; set $ip [{{HOST_IP}}]; {{UNKNOWN}} {} }}''
       \<lparr>ctx_id = Num 1, ctx_name = ''node-1'', ctx_domain = ''a.example.com'',
        ctx_port = Num 443, additionalPorts = [Num 8443], proxyType = ''vless'', ctx_host = None\<rparr>
    = ''server { listen 443; server_name a.example.com; set $ip []; {{UNKNOWN}} {} }}''"
  using replaceVariables_clean_template
    [where ts = "[Lit ''server { listen '', Var ''PORT'', Lit ''; server_name '', Var ''DOMAIN'',
                  Lit ''; set $ip ['', Var ''HOST_IP'', Lit '']; '', Var ''UNKNOWN'', Lit '' {} }}'']"
       and c = "\<lparr>ctx_id = Num 1, ctx_name = ''node-1'', ctx_domain = ''a.example.com'',
        ctx_port = Num 443, additionalPorts = [Num 8443], proxyType = ''vless'', ctx_host = None\<rparr>"
       and entries = "rev (replacements \<lparr>ctx_id = Num 1, ctx_name = ''node-1'', ctx_domain = ''a.example.com'',
        ctx_port = Num 443, additionalPorts = [Num 8443], proxyType = ''vless'', ctx_host = None\<rparr>)"]
  by (simp add: flatten_def placeholder_def brace_free_def replacements_def decimal_def
      host_ip_def host_ipv6_def host_region_def)

text \<open>
  Claim C7 as stated fails, for three reasons. A substituted value is scanned again by
  the later passes: with the domain \<open>{{NODE_ID}}\<close> the output of the template
  \<open>{{DOMAIN}}\<close> still holds the known key \<open>{{NODE_ID}}\<close>, and processing the same
  entries in the reverse order gives a different output. An empty value joins the
  literal text on its two sides: with no linked host the
  template \<open>{{NODE{{HOST_IP}}_ID}}\<close>, whose literal text holds \<open>{{\<close>, and the
  template \<open>{{{HOST_IP}}{NODE_ID}}\<close>, whose literal text before the placeholder ends in
  \<open>{\<close>, both render to the known key \<open>{{NODE_ID}}\<close>, although every value of the
  context is ordinary text.
\<close>

theorem replaceVariables_rescans_counterexample:
  "replaceVariables ''{{DOMAIN}}''
       \<lparr>ctx_id = Num 7, ctx_name = ''node-1'', ctx_domain = ''{{NODE_ID}}'',
        ctx_port = Num 443, additionalPorts = [], proxyType = ''vless'', ctx_host = None\<rparr>
     = ''{{NODE_ID}}''
   \<and> substitute (rev (replacements \<lparr>ctx_id = Num 7, ctx_name = ''node-1'', ctx_domain = ''{{NODE_ID}}'',
        ctx_port = Num 443, additionalPorts = [], proxyType = ''vless'', ctx_host = None\<rparr>)) ''{{DOMAIN}}''
     = ''7''
   \<and> replaceVariables ''{{NODE{{HOST_IP}}_ID}}''
       \<lparr>ctx_id = Num 7, ctx_name = ''node-1'', ctx_domain = ''a.example.com'',
        ctx_port = Num 443, additionalPorts = [], proxyType = ''vless'', ctx_host = None\<rparr>
     = ''{{NODE_ID}}''
   \<and> replaceVariables ''{{{HOST_IP}}{NODE_ID}}''
       \<lparr>ctx_id = Num 7, ctx_name = ''node-1'', ctx_domain = ''a.example.com'',
        ctx_port = Num 443, additionalPorts = [], proxyType = ''vless'', ctx_host = None\<rparr>
     = ''{{NODE_ID}}''"
  by (simp add: replaceVariables_def substitute_def replacements_def split_def decimal_def
      host_ip_def host_ipv6_def host_region_def)

text \<open>
  Claim C8, as amended. For a context with no linked host, over the templates and values
  of the amended claim C7, the rendered output is the template with the empty string at
  each host placeholder (not the text \<open>null\<close> or \<open>undefined\<close>), the context's value
  at each node placeholder, and every other token unchanged.
\<close>

theorem render_without_host:
  assumes no_host: "ctx_host c = None"
    and template: "list_all clean_token ts"
    and vals: "list_all plain (map snd (replacements c))"
    and numbers: "list_all representable (ctx_id c # ctx_port c # additionalPorts c)"
  shows "replaceVariables (flatten ts) c = concat (map (render_no_host c) ts)"
proof -
  have clean: "list_all clean_entry (replacements c)"
    using vals replacements_keys_placeholder by (simp add: clean_entry_iff)
  have "expand (map_of (replacements c)) = render_no_host c"
    by (rule ext) (rule expand_no_host[OF no_host])
  then show ?thesis
    unfolding replaceVariables_def using substitute_tokens[OF clean template] by simp
qed

theorem render_without_host_witness:
  "replaceVariables ''{ listen: {{PORT}}, ports: [{{ADDITIONAL_PORTS}}], host: {{DOMAIN}}, ip: <{{HOST_IP}}>, v6: <{{HOST_IPV6}}>, region: <{{HOST_REGION}}> }''
       \<lparr>ctx_id = Num 1, ctx_name = ''node-1'', ctx_domain = ''a.example.com'',
        ctx_port = Num 443, additionalPorts = [Num 8443], proxyType = ''vless'', ctx_host = None\<rparr>
    = ''{ listen: 443, ports: [8443], host: a.example.com, ip: <>, v6: <>, region: <> }''"
  using render_without_host
    [where ts = "[Lit ''{ listen: '', Var ''PORT'', Lit '', ports: ['', Var ''ADDITIONAL_PORTS'',
                  Lit ''], host: '', Var ''DOMAIN'', Lit '', ip: <'', Var ''HOST_IP'',
                  Lit ''>, v6: <'', Var ''HOST_IPV6'', Lit ''>, region: <'', Var ''HOST_REGION'', Lit ''> }'']"
       and c = "\<lparr>ctx_id = Num 1, ctx_name = ''node-1'', ctx_domain = ''a.example.com'',
        ctx_port = Num 443, additionalPorts = [Num 8443], proxyType = ''vless'', ctx_host = None\<rparr>"]
  by (simp add: flatten_def placeholder_def brace_free_def replacements_def decimal_def
      host_ip_def host_ipv6_def host_region_def)

text \<open>
  Claim C8 as stated fails at the node placeholders. With no linked host and the name
  \<open>{{DOMAIN}}\<close>, the placeholder \<open>{{NODE_NAME}}\<close> is rendered as the domain, not as
  the context's name. With an empty domain, the template \<open>{{{DOMAIN}}{PORT}}\<close>, whose
  only placeholder is \<open>{{DOMAIN}}\<close>, renders to the port: the literal text around the
  placeholder is joined into a key and substituted.
\<close>

theorem render_without_host_counterexample:
  "ctx_host \<lparr>ctx_id = Num 1, ctx_name = ''{{DOMAIN}}'', ctx_domain = ''a.example.com'',
        ctx_port = Num 443, additionalPorts = [Num 8443], proxyType = ''vless'', ctx_host = None\<rparr> = None
   \<and> replaceVariables ''{{NODE_NAME}}''
       \<lparr>ctx_id = Num 1, ctx_name = ''{{DOMAIN}}'', ctx_domain = ''a.example.com'',
        ctx_port = Num 443, additionalPorts = [Num 8443], proxyType = ''vless'', ctx_host = None\<rparr>
     = ''a.example.com''
   \<and> replaceVariables ''{{{DOMAIN}}{PORT}}''
       \<lparr>ctx_id = Num 1, ctx_name = ''node-1'', ctx_domain = [],
        ctx_port = Num 443, additionalPorts = [Num 8443], proxyType = ''vless'', ctx_host = None\<rparr>
     = ''443''"
  by (simp add: replaceVariables_def substitute_def replacements_def split_def decimal_def
      host_ip_def host_ipv6_def host_region_def)

section \<open>Properties of the availability monitor\<close>

lemma heartbeatLoop_no_throw:
  "\<forall>x\<in>set hs. \<not> throws cfg tg now x \<Longrightarrow>
     heartbeatLoop cfg tg now hs = (concat (map (\<lambda>x. fst (checkHost cfg tg now x)) hs), None)"
proof (induction hs)
  case Nil
  then show ?case by simp
next
  case (Cons h hs)
  then have "snd (checkHost cfg tg now h) = None" by (simp add: throws_def)
  then obtain evs where "checkHost cfg tg now h = (evs, None)" by (cases "checkHost cfg tg now h") auto
  with Cons show ?case by simp
qed

lemma heartbeatLoop_throw:
  assumes "\<forall>x\<in>set xs. \<not> throws cfg tg now x" and "throws cfg tg now bad"
  shows "heartbeatLoop cfg tg now (xs @ bad # ys) =
     (concat (map (\<lambda>x. fst (checkHost cfg tg now x)) xs) @ fst (checkHost cfg tg now bad),
      snd (checkHost cfg tg now bad))"
  using assms(1)
proof (induction xs)
  case Nil
  from assms(2) obtain evs e where "checkHost cfg tg now bad = (evs, Some e)"
    by (cases "checkHost cfg tg now bad") (auto simp: throws_def)
  then show ?case by simp
next
  case (Cons h xs)
  then have "snd (checkHost cfg tg now h) = None" by (simp add: throws_def)
  then obtain evs where "checkHost cfg tg now h = (evs, None)" by (cases "checkHost cfg tg now h") auto
  with Cons show ?case by simp
qed

lemma valid_time_no_throw:
  "valid_time (or_zero (lastHeartbeat h) * 1000) \<Longrightarrow> \<not> throws cfg tg now h"
  by (simp add: throws_def checkHost_def notifyHostOffline_def Let_def)

lemma throws_events:
  "throws cfg tg now h \<Longrightarrow> fst (checkHost cfg tg now h) = [LogWarn (''Host offline detected: '' @ name h)]"
  by (auto simp: throws_def checkHost_def Let_def split: if_splits sum.splits)

lemma checkHost_notification_other:
  "name x \<noteq> n \<Longrightarrow> count_list (fst (checkHost cfg tg now x)) (HostOfflineNotification n t) = 0"
  by (auto simp: checkHost_def Let_def notifyHostOffline_def split: sum.splits)

lemma checkHost_notification_stale:
  assumes "status h \<noteq> ''offline''" "now - or_zero (lastHeartbeat h) > hostHeartbeatTimeout cfg"
    "notifyOnHostOffline cfg" "tg" "valid_time (or_zero (lastHeartbeat h) * 1000)"
  shows "count_list (fst (checkHost cfg tg now h)) (HostOfflineNotification (name h) (or_zero (lastHeartbeat h))) = 1"
  using assms by (simp add: checkHost_def Let_def notifyHostOffline_def)

lemma count_list_concat_one:
  assumes "h \<in> set hs" "distinct (map name hs)" "count_list (f h) e = 1"
    "\<And>x. name x \<noteq> name h \<Longrightarrow> count_list (f x) e = 0"
  shows "count_list (concat (map f hs)) e = 1"
  using assms(1,2)
proof (induction hs)
  case Nil
  then show ?case by simp
next
  case (Cons x hs)
  have zero: "count_list (concat (map f ys)) e = 0" if "name h \<notin> name ` set ys" for ys
    using that
  proof (induction ys)
    case Nil
    then show ?case by simp
  next
    case (Cons y ys)
    then have "name y \<noteq> name h" by auto
    from assms(4)[OF this] Cons show ?case by simp
  qed
  show ?case
  proof (cases "x = h")
    case True
    with Cons.prems have "name h \<notin> name ` set hs" by simp
    from zero[OF this] True assms(3) show ?thesis by simp
  next
    case False
    with Cons.prems have hin: "h \<in> set hs" and d: "distinct (map name hs)" and "name x \<noteq> name h"
      by auto
    from assms(4)[OF this(3)] Cons.IH[OF hin d] show ?thesis by simp
  qed
qed

lemma checkDiskSpace_no_offline_notification:
  "count_list (checkDiskSpace cfg tg reaches hs) (HostOfflineNotification n t) = 0"
  by (induction hs) (auto simp: checkDisk_def notifyLowDisk_def split: usage.splits)

lemma markOfflineHosts_events_no_notification:
  "count_list (fst (markOfflineHosts timeout now db)) (HostOfflineNotification n t) = 0"
  by (simp add: markOfflineHosts_def Let_def)

lemma logStatistics_no_notification:
  "count_list (logStatistics stats) (HostOfflineNotification n t) = 0"
  by (simp add: logStatistics_def split: sum.splits)

lemma markOfflineHosts_marks:
  assumes "h \<in> set db" "goes_offline (now - timeout) h"
  shows "h\<lparr>status := ''offline'', updatedAt := now\<rparr> \<in> set (snd (markOfflineHosts timeout now db))"
  using assms by (auto simp: markOfflineHosts_def Let_def image_iff intro!: bexI[of _ h])

text \<open>
  Claim C1, as amended. In a sweep over hosts with storable heartbeat dates, a host that
  is not \<open>offline\<close> and whose heartbeat is older than the timeout gets exactly one
  offline notification when both the configuration flag and the notifier are enabled;
  its status is persisted as \<open>offline\<close> when its stored status is \<open>online\<close> and
  its heartbeat is not \<open>NULL\<close>. Host names are unique in the table; the clock read by
  \<open>markOfflineHosts\<close> is not before the one read by the loop.
\<close>

theorem sweep_marks_stale_online_host:
  assumes host: "h \<in> set db" and names: "distinct (map name db)"
    and dates: "\<forall>x\<in>set db. valid_time (or_zero (lastHeartbeat x) * 1000)"
    and not_offline: "status h \<noteq> ''offline''"
    and stale: "now - or_zero (lastHeartbeat h) > hostHeartbeatTimeout cfg"
    and clock: "now \<le> now'"
  shows "(notifyOnHostOffline cfg \<and> tg \<longrightarrow>
            count_list (fst (runCheck cfg tg reaches now now' db stats))
              (HostOfflineNotification (name h) (or_zero (lastHeartbeat h))) = 1)
       \<and> (status h = ''online'' \<and> lastHeartbeat h = Val (or_zero (lastHeartbeat h)) \<longrightarrow>
            h\<lparr>status := ''offline'', updatedAt := now'\<rparr> \<in> set (snd (runCheck cfg tg reaches now now' db stats)))"
proof -
  let ?f = "\<lambda>x. fst (checkHost cfg tg now x)"
  let ?n = "HostOfflineNotification (name h) (or_zero (lastHeartbeat h))"
  obtain evs' db' where mark: "markOfflineHosts (hostHeartbeatTimeout cfg) now' db = (evs', db')"
    by (cases "markOfflineHosts (hostHeartbeatTimeout cfg) now' db")
  have "\<forall>x\<in>set db. \<not> throws cfg tg now x"
    using dates valid_time_no_throw by blast
  then have loop: "heartbeatLoop cfg tg now db = (concat (map ?f db), None)"
    by (rule heartbeatLoop_no_throw)
  have run: "runCheck cfg tg reaches now now' db stats =
      (LogDebug ''Running monitoring check'' # (concat (map ?f db) @ evs')
         @ checkDiskSpace cfg tg reaches db' @ logStatistics stats, db')"
    by (simp add: runCheck_def checkHostHeartbeats_def getHosts_def loop mark)
  have evs': "count_list evs' ?n = 0"
    using markOfflineHosts_events_no_notification[of "hostHeartbeatTimeout cfg" now' db] mark by simp
  have notified: "count_list (fst (runCheck cfg tg reaches now now' db stats)) ?n = 1"
    if "notifyOnHostOffline cfg" "tg"
  proof -
    from host dates have "valid_time (or_zero (lastHeartbeat h) * 1000)" by blast
    from checkHost_notification_stale[OF not_offline stale that this]
    have one: "count_list (?f h) ?n = 1" .
    have "count_list (concat (map ?f db)) ?n = 1"
      using host names one
      by (rule count_list_concat_one[where f = "?f" and h = h]) (rule checkHost_notification_other)
    then show ?thesis
      by (simp add: run evs' checkDiskSpace_no_offline_notification logStatistics_no_notification)
  qed
  have marked: "h\<lparr>status := ''offline'', updatedAt := now'\<rparr> \<in> set (snd (runCheck cfg tg reaches now now' db stats))"
    if "status h = ''online''" "lastHeartbeat h = Val (or_zero (lastHeartbeat h))"
  proof -
    have "goes_offline (now' - hostHeartbeatTimeout cfg) h"
      using that stale clock by (cases "lastHeartbeat h") (auto simp: goes_offline_def)
    from markOfflineHosts_marks[OF host this] mark show ?thesis by (simp add: run)
  qed
  from notified marked show ?thesis by blast
qed

theorem sweep_marks_stale_online_host_witness:
  "count_list (fst (runCheck defaultConfig True percent_reaches 1000 1003
        [\<lparr>name = ''vps-1'', status = ''online'', lastHeartbeat = Val 600, diskTotal = Val 100,
          diskUsed = Val 95, updatedAt = 600\<rparr>,
         \<lparr>name = ''vps-2'', status = ''online'', lastHeartbeat = Val 990, diskTotal = Val 100,
          diskUsed = Val 10, updatedAt = 990\<rparr>] (Inr ())))
      (HostOfflineNotification ''vps-1'' 600) = 1
   \<and> \<lparr>name = ''vps-1'', status = ''offline'', lastHeartbeat = Val 600, diskTotal = Val 100,
          diskUsed = Val 95, updatedAt = 1003\<rparr>
      \<in> set (snd (runCheck defaultConfig True percent_reaches 1000 1003
        [\<lparr>name = ''vps-1'', status = ''online'', lastHeartbeat = Val 600, diskTotal = Val 100,
          diskUsed = Val 95, updatedAt = 600\<rparr>,
         \<lparr>name = ''vps-2'', status = ''online'', lastHeartbeat = Val 990, diskTotal = Val 100,
          diskUsed = Val 10, updatedAt = 990\<rparr>] (Inr ())))"
  using sweep_marks_stale_online_host
    [where h = "\<lparr>name = ''vps-1'', status = ''online'', lastHeartbeat = Val 600, diskTotal = Val 100,
          diskUsed = Val 95, updatedAt = 600\<rparr>"
       and db = "[\<lparr>name = ''vps-1'', status = ''online'', lastHeartbeat = Val 600, diskTotal = Val 100,
          diskUsed = Val 95, updatedAt = 600\<rparr>,
         \<lparr>name = ''vps-2'', status = ''online'', lastHeartbeat = Val 990, diskTotal = Val 100,
          diskUsed = Val 10, updatedAt = 990\<rparr>]"
       and now = 1000 and cfg = defaultConfig and now' = 1003 and tg = True
       and reaches = percent_reaches and stats = "Inr ()"]
  by (simp add: defaultConfig_def valid_time_def)

text \<open>
  Claim C1 as stated fails for a host whose stored status is \<open>unknown\<close> (the default of
  the column): it is not \<open>offline\<close>, its heartbeat is 400 seconds old under the default
  timeout of 300, the sweep notifies for it, and its status is still \<open>unknown\<close> after
  the sweep, because the update only touches rows whose status is \<open>online\<close>.
\<close>

theorem sweep_leaves_unknown_host_counterexample:
  "status \<lparr>name = ''vps-1'', status = ''unknown'', lastHeartbeat = Val 600, diskTotal = Val 100,
          diskUsed = Val 10, updatedAt = 600\<rparr> \<noteq> ''offline''
   \<and> hostHeartbeatTimeout defaultConfig < 1000 - 600
   \<and> runCheck defaultConfig True percent_reaches 1000 1000
        [\<lparr>name = ''vps-1'', status = ''unknown'', lastHeartbeat = Val 600, diskTotal = Val 100,
          diskUsed = Val 10, updatedAt = 600\<rparr>] (Inr ())
     = ([LogDebug ''Running monitoring check'', LogWarn ''Host offline detected: vps-1'',
         HostOfflineNotification ''vps-1'' 600, LogDebug ''System statistics''],
        [\<lparr>name = ''vps-1'', status = ''unknown'', lastHeartbeat = Val 600, diskTotal = Val 100,
          diskUsed = Val 10, updatedAt = 600\<rparr>])"
  by (simp add: runCheck_def checkHostHeartbeats_def getHosts_def checkHost_def
      notifyHostOffline_def valid_time_def markOfflineHosts_def goes_offline_def
      checkDisk_def diskUsagePercent_def percent_reaches_def logStatistics_def
      defaultConfig_def Let_def)

text \<open>
  Claim C6, as amended. A failure while the heartbeat check evaluates a host is caught
  once, for the whole check, and logged: the heartbeat check ends at that host, so the
  hosts after it are not evaluated by it and no host is marked offline in that sweep.
  The failure goes no further: the disk check still evaluates every host, the
  statistics are logged, and the sweep completes.
\<close>

theorem heartbeat_failure_ends_heartbeat_check_only:
  assumes "\<forall>x\<in>set xs. \<not> throws cfg tg now x" and "throws cfg tg now bad"
  shows "runCheck cfg tg reaches now now' (xs @ bad # ys) stats =
     (LogDebug ''Running monitoring check'' #
        concat (map (\<lambda>x. fst (checkHost cfg tg now x)) xs)
        @ [LogWarn (''Host offline detected: '' @ name bad), LogError ''Failed to check host heartbeats'']
        @ checkDiskSpace cfg tg reaches (xs @ bad # ys)
        @ logStatistics stats,
      xs @ bad # ys)"
proof -
  from assms(2) obtain e where e: "snd (checkHost cfg tg now bad) = Some e"
    by (auto simp: throws_def)
  have "heartbeatLoop cfg tg now (xs @ bad # ys) =
      (concat (map (\<lambda>x. fst (checkHost cfg tg now x)) xs)
         @ [LogWarn (''Host offline detected: '' @ name bad)], Some e)"
    using heartbeatLoop_throw[OF assms, of ys] throws_events[OF assms(2)] e by simp
  then show ?thesis
    by (simp add: runCheck_def checkHostHeartbeats_def getHosts_def)
qed

theorem heartbeat_failure_ends_heartbeat_check_only_witness:
  "runCheck defaultConfig True percent_reaches 1000 1000
     ([\<lparr>name = ''vps-0'', status = ''online'', lastHeartbeat = Val 990, diskTotal = Val 100,
          diskUsed = Val 95, updatedAt = 990\<rparr>]
      @ \<lparr>name = ''vps-1'', status = ''online'', lastHeartbeat = Val (- 10000000000000),
          diskTotal = Val 100, diskUsed = Val 10, updatedAt = 0\<rparr>
      # [\<lparr>name = ''vps-2'', status = ''online'', lastHeartbeat = Val 600, diskTotal = Val 100,
          diskUsed = Val 10, updatedAt = 600\<rparr>]) (Inr ())
   = ([LogDebug ''Running monitoring check'', LogWarn ''Host offline detected: vps-1'',
       LogError ''Failed to check host heartbeats'', LowDiskWarn ''vps-0'' 95 100,
       LowDiskNotification ''vps-0'' 95 100, LogDebug ''System statistics''],
      [\<lparr>name = ''vps-0'', status = ''online'', lastHeartbeat = Val 990, diskTotal = Val 100,
          diskUsed = Val 95, updatedAt = 990\<rparr>,
       \<lparr>name = ''vps-1'', status = ''online'', lastHeartbeat = Val (- 10000000000000),
          diskTotal = Val 100, diskUsed = Val 10, updatedAt = 0\<rparr>,
       \<lparr>name = ''vps-2'', status = ''online'', lastHeartbeat = Val 600, diskTotal = Val 100,
          diskUsed = Val 10, updatedAt = 600\<rparr>])"
  using heartbeat_failure_ends_heartbeat_check_only
    [where xs = "[\<lparr>name = ''vps-0'', status = ''online'', lastHeartbeat = Val 990, diskTotal = Val 100,
          diskUsed = Val 95, updatedAt = 990\<rparr>]"
       and cfg = defaultConfig and tg = True and now = 1000
       and bad = "\<lparr>name = ''vps-1'', status = ''online'', lastHeartbeat = Val (- 10000000000000),
          diskTotal = Val 100, diskUsed = Val 10, updatedAt = 0\<rparr>"
       and reaches = percent_reaches and now' = 1000
       and ys = "[\<lparr>name = ''vps-2'', status = ''online'', lastHeartbeat = Val 600, diskTotal = Val 100,
          diskUsed = Val 10, updatedAt = 600\<rparr>]" and stats = "Inr ()"]
  by (simp add: throws_def checkHost_def notifyHostOffline_def valid_time_def
      checkDisk_def diskUsagePercent_def percent_reaches_def notifyLowDisk_def
      logStatistics_def defaultConfig_def Let_def)

text \<open>
  Claim C6 as stated fails. The first host holds a heartbeat outside the range of
  \<open>Date\<close>, so building its notification throws; the second host is stale and
  \<open>online\<close>, yet the sweep neither notifies for it nor marks it offline: the one
  \<open>catch\<close> of the heartbeat check ended the loop and skipped the update.
\<close>

theorem heartbeat_failure_skips_later_hosts_counterexample:
  "runCheck defaultConfig True percent_reaches 1000 1000
     [\<lparr>name = ''vps-1'', status = ''online'', lastHeartbeat = Val (- 10000000000000),
          diskTotal = Val 100, diskUsed = Val 10, updatedAt = 0\<rparr>,
      \<lparr>name = ''vps-2'', status = ''online'', lastHeartbeat = Val 600, diskTotal = Val 100,
          diskUsed = Val 10, updatedAt = 600\<rparr>] (Inr ())
   = ([LogDebug ''Running monitoring check'', LogWarn ''Host offline detected: vps-1'',
       LogError ''Failed to check host heartbeats'', LogDebug ''System statistics''],
      [\<lparr>name = ''vps-1'', status = ''online'', lastHeartbeat = Val (- 10000000000000),
          diskTotal = Val 100, diskUsed = Val 10, updatedAt = 0\<rparr>,
       \<lparr>name = ''vps-2'', status = ''online'', lastHeartbeat = Val 600, diskTotal = Val 100,
          diskUsed = Val 10, updatedAt = 600\<rparr>])
   \<and> runCheck defaultConfig True percent_reaches 1000 1000
     [\<lparr>name = ''vps-2'', status = ''online'', lastHeartbeat = Val 600, diskTotal = Val 100,
          diskUsed = Val 10, updatedAt = 600\<rparr>] (Inr ())
   = ([LogDebug ''Running monitoring check'', LogWarn ''Host offline detected: vps-2'',
       HostOfflineNotification ''vps-2'' 600, LogInfo ''Marked 1 hosts as offline'',
       LogDebug ''System statistics''],
      [\<lparr>name = ''vps-2'', status = ''offline'', lastHeartbeat = Val 600, diskTotal = Val 100,
          diskUsed = Val 10, updatedAt = 1000\<rparr>])"
  by (simp add: runCheck_def checkHostHeartbeats_def getHosts_def checkHost_def
      notifyHostOffline_def valid_time_def markOfflineHosts_def goes_offline_def
      checkDisk_def diskUsagePercent_def percent_reaches_def logStatistics_def
      defaultConfig_def decimal_def Let_def)

lemma checkDiskSpace_append:
  "checkDiskSpace cfg tg reaches (xs @ ys) = checkDiskSpace cfg tg reaches xs @ checkDiskSpace cfg tg reaches ys"
  by (induction xs) auto

text \<open>
  Claim C9. A host whose \<open>diskTotal\<close> is zero or \<open>null\<close>, or whose \<open>diskUsed\<close> is
  \<open>undefined\<close>, is skipped by the disk check: the usage division is not evaluated for
  it and the check produces for it neither a warning nor a notification, so the check's
  outcome is the one without that host. Whenever the division is evaluated, for any
  host, its divisor is not zero.
\<close>

theorem disk_check_skips_host_without_disk_data:
  assumes "diskTotal h = Val 0 \<or> diskTotal h = Null \<or> diskUsed h = Undefined"
  shows "diskUsagePercent h = Skipped
       \<and> checkDisk cfg tg reaches h = []
       \<and> checkDiskSpace cfg tg reaches (xs @ h # ys) = checkDiskSpace cfg tg reaches (xs @ ys)
       \<and> (\<forall>x used capacity. diskUsagePercent x = Usage used capacity \<longrightarrow> capacity \<noteq> 0)"
proof -
  from assms have skipped: "diskUsagePercent h = Skipped"
    by (auto simp: diskUsagePercent_def)
  then have none: "checkDisk cfg tg reaches h = []"
    by (simp add: checkDisk_def)
  have divisor: "capacity \<noteq> 0" if "diskUsagePercent x = Usage used capacity" for x used capacity
    using that by (cases "diskTotal x") (auto simp: diskUsagePercent_def split: if_splits)
  from skipped none divisor show ?thesis
    by (simp add: checkDiskSpace_append)
qed

theorem disk_check_skips_host_without_disk_data_witness:
  "diskUsagePercent \<lparr>name = ''vps-1'', status = ''online'', lastHeartbeat = Val 990,
        diskTotal = Val 0, diskUsed = Val 95, updatedAt = 990\<rparr> = Skipped
   \<and> checkDiskSpace defaultConfig True percent_reaches
       ([] @ \<lparr>name = ''vps-1'', status = ''online'', lastHeartbeat = Val 990,
        diskTotal = Val 0, diskUsed = Val 95, updatedAt = 990\<rparr> # []) = []"
  using disk_check_skips_host_without_disk_data
    [where h = "\<lparr>name = ''vps-1'', status = ''online'', lastHeartbeat = Val 990,
        diskTotal = Val 0, diskUsed = Val 95, updatedAt = 990\<rparr>"
       and cfg = defaultConfig and tg = True and reaches = percent_reaches
       and xs = "[]" and ys = "[]"]
  by simp

section \<open>Properties of the DNS provider\<close>

lemma fetch_healthy:
  "faults v = [] \<Longrightarrow> fetch rq v =
     (Inr (fst (serve rq (v\<lparr>received := received v @ [rq]\<rparr>))), snd (serve rq (v\<lparr>received := received v @ [rq]\<rparr>)))"
proof -
  assume h: "faults v = []"
  then have eq: "v\<lparr>received := received v @ [rq], faults := []\<rparr> = v\<lparr>received := received v @ [rq]\<rparr>"
    by (cases v) simp
  from h show ?thesis by (simp add: fetch_def Let_def eq split: prod.splits)
qed

lemma getZoneId_healthy:
  "faults v = [] \<Longrightarrow> getZoneId p d v =
     (case map snd (filter (\<lambda>zn. fst zn = getBaseDomain d) (zones v)) of [] \<Rightarrow> None | z # zs \<Rightarrow> Some z,
      v\<lparr>received := received v @ [ListZones (getBaseDomain d)]\<rparr>)"
  by (simp add: getZoneId_def fetch_healthy split: list.splits)

lemma findRecord_healthy:
  "faults v = [] \<Longrightarrow> findRecord p z d t v =
     (case filter (matches_record z t d) (records v) of [] \<Rightarrow> None | r # rs \<Rightarrow> Some r,
      v\<lparr>received := received v @ [ListRecords z t d]\<rparr>)"
  by (simp add: findRecord_def fetch_healthy split: list.splits)

lemma resolveZone_healthy:
  assumes "faults v = []"
  shows "\<exists>rq. resolveZone p d v = (fst (resolveZone p d v), v\<lparr>received := received v @ rq\<rparr>)
             \<and> filter is_write rq = []"
proof (cases "\<exists>z. zoneId p = Some z \<and> z \<noteq> []")
  case True
  then have "resolveZone p d v = (zoneId p, v\<lparr>received := received v @ []\<rparr>)"
    by (auto simp: resolveZone_def)
  then show ?thesis by (metis filter.simps(1) fst_conv)
next
  case False
  then have "resolveZone p d v = getZoneId p d v"
    by (auto simp: resolveZone_def split: option.splits)
  with assms have "resolveZone p d v =
     (fst (resolveZone p d v), v\<lparr>received := received v @ [ListZones (getBaseDomain d)]\<rparr>)"
    by (simp add: getZoneId_healthy)
  moreover have "filter is_write [ListZones (getBaseDomain d)] = []" by simp
  ultimately show ?thesis by blast
qed

lemma resolveZone_zones:
  assumes "faults v = []" "faults w = []" "zones w = zones v"
  shows "fst (resolveZone p d w) = fst (resolveZone p d v)"
  using assms by (simp add: resolveZone_def getZoneId_healthy split: option.splits)

lemma updateRecord_healthy_create:
  assumes healthy: "faults v = []" and zone: "fst (resolveZone p d v) = Some z" "z \<noteq> []"
    and none: "filter (matches_record z t d) (records v) = []"
  shows "\<exists>rq. filter is_write rq = [] \<and> updateRecord p d t c v =
     (True, v\<lparr>received := received v @ rq @ [PostRecord z t d c],
              records := records v @ [\<lparr>rec_id = nextId v, rec_zone = z, rec_type = t, rec_name = d, rec_content = c\<rparr>],
              nextId := Suc (nextId v)\<rparr>)"
proof -
  from resolveZone_healthy[OF healthy, of p d] zone obtain rq where
    rz: "resolveZone p d v = (Some z, v\<lparr>received := received v @ rq\<rparr>)" and w: "filter is_write rq = []"
    by auto
  let ?v1 = "v\<lparr>received := received v @ rq\<rparr>"
  have h1: "faults ?v1 = []" using healthy by simp
  have find: "findRecord p z d t ?v1 = (None, ?v1\<lparr>received := received ?v1 @ [ListRecords z t d]\<rparr>)"
    using none by (simp add: findRecord_healthy[OF h1])
  let ?v2 = "?v1\<lparr>received := received ?v1 @ [ListRecords z t d]\<rparr>"
  have h2: "faults ?v2 = []" using healthy by simp
  have "updateRecord p d t c v =
     (True, v\<lparr>received := received v @ (rq @ [ListRecords z t d]) @ [PostRecord z t d c],
              records := records v @ [\<lparr>rec_id = nextId v, rec_zone = z, rec_type = t, rec_name = d, rec_content = c\<rparr>],
              nextId := Suc (nextId v)\<rparr>)"
    using zone(2) healthy
    by (simp add: updateRecord_def updateRecord_try_def rz find createNewRecord_def fetch_healthy)
  moreover have "filter is_write (rq @ [ListRecords z t d]) = []" using w by simp
  ultimately show ?thesis by blast
qed

lemma updateRecord_healthy_update:
  assumes healthy: "faults v = []" and zone: "fst (resolveZone p d v) = Some z" "z \<noteq> []"
    and some: "filter (matches_record z t d) (records v) = r # rs"
  shows "\<exists>rq. filter is_write rq = [] \<and> updateRecord p d t c v =
     (True, v\<lparr>received := received v @ rq @ [PutRecord z (rec_id r) c],
              records := map (put_content z (rec_id r) c) (records v)\<rparr>)"
proof -
  from resolveZone_healthy[OF healthy, of p d] zone obtain rq where
    rz: "resolveZone p d v = (Some z, v\<lparr>received := received v @ rq\<rparr>)" and w: "filter is_write rq = []"
    by auto
  let ?v1 = "v\<lparr>received := received v @ rq\<rparr>"
  have h1: "faults ?v1 = []" using healthy by simp
  have find: "findRecord p z d t ?v1 = (Some r, ?v1\<lparr>received := received ?v1 @ [ListRecords z t d]\<rparr>)"
    using some by (simp add: findRecord_healthy[OF h1])
  let ?v2 = "?v1\<lparr>received := received ?v1 @ [ListRecords z t d]\<rparr>"
  have h2: "faults ?v2 = []" using healthy by simp
  from some have "r \<in> set (filter (matches_record z t d) (records v))" by simp
  then have rin: "r \<in> set (records v)" and rz': "rec_zone r = z"
    by (auto simp: matches_record_def)
  then have ex: "list_ex (\<lambda>x. rec_zone x = z \<and> rec_id x = rec_id r) (records v)"
    by (auto simp: list_ex_iff)
  have "put_content z (rec_id r) c = (\<lambda>x. if rec_zone x = z \<and> rec_id x = rec_id r then x\<lparr>rec_content := c\<rparr> else x)"
    by (rule ext) (simp add: put_content_def)
  then have "updateRecord p d t c v =
     (True, v\<lparr>received := received v @ (rq @ [ListRecords z t d]) @ [PutRecord z (rec_id r) c],
              records := map (put_content z (rec_id r) c) (records v)\<rparr>)"
    using zone(2) ex healthy
    by (simp add: updateRecord_def updateRecord_try_def rz find updateExistingRecord_def fetch_healthy)
  moreover have "filter is_write (rq @ [ListRecords z t d]) = []" using w by simp
  ultimately show ?thesis by blast
qed

lemma filter_put_content:
  "filter (matches_record z t d) (map (put_content z' i c) rs) = map (put_content z' i c) (filter (matches_record z t d) rs)"
  by (induction rs) (auto simp: matches_record_def put_content_def)

lemma writes_since_one:
  "filter is_write rq = [] \<Longrightarrow> is_write w \<Longrightarrow> received v' = received v @ rq @ [w] \<Longrightarrow> writes_since v v' = [w]"
  by (simp add: writes_since_def)

text \<open>
  Claim C4. On a vendor that serves every request, with a zone that resolves and at most
  one record for (zone, name, type) to start with, two \<open>updateRecord\<close> calls in
  sequence both succeed and leave exactly one record for (zone, name, type), holding
  the second value. The first call issues a create when no record existed and an update
  to the existing record's identifier when one did; the second call issues an update to
  the identifier of the record the first call left, and no create.
\<close>

theorem updateRecord_twice_one_record:
  assumes healthy: "faults v = []"
    and zone: "fst (resolveZone p domain v) = Some z" "z \<noteq> []"
    and atmost: "length (filter (matches_record z type domain) (records v)) \<le> 1"
  shows "\<exists>v1 v2 r.
      updateRecord p domain type c1 v = (True, v1)
    \<and> updateRecord p domain type c2 v1 = (True, v2)
    \<and> filter (matches_record z type domain) (records v1) = [r]
    \<and> rec_content r = c1
    \<and> writes_since v v1 =
         [if filter (matches_record z type domain) (records v) = []
          then PostRecord z type domain c1 else PutRecord z (rec_id r) c1]
    \<and> writes_since v1 v2 = [PutRecord z (rec_id r) c2]
    \<and> filter (matches_record z type domain) (records v2) = [r\<lparr>rec_content := c2\<rparr>]"
proof -
  let ?m = "matches_record z type domain"
  have second: "\<exists>v2. updateRecord p domain type c2 v1 = (True, v2)
       \<and> writes_since v1 v2 = [PutRecord z (rec_id r) c2]
       \<and> filter ?m (records v2) = [r\<lparr>rec_content := c2\<rparr>]"
    if h1: "faults v1 = []" and z1: "zones v1 = zones v" and one: "filter ?m (records v1) = [r]"
    for v1 r
  proof -
    have zone1: "fst (resolveZone p domain v1) = Some z"
      using resolveZone_zones[OF healthy h1 z1, of p domain] zone(1) by simp
    from updateRecord_healthy_update[OF h1 zone1 zone(2) one, of c2] obtain rq where
      w: "filter is_write rq = []" and
      u: "updateRecord p domain type c2 v1 =
        (True, v1\<lparr>received := received v1 @ rq @ [PutRecord z (rec_id r) c2],
                 records := map (put_content z (rec_id r) c2) (records v1)\<rparr>)"
      by blast
    let ?v2 = "v1\<lparr>received := received v1 @ rq @ [PutRecord z (rec_id r) c2],
                 records := map (put_content z (rec_id r) c2) (records v1)\<rparr>"
    have ws: "writes_since v1 ?v2 = [PutRecord z (rec_id r) c2]"
      by (rule writes_since_one[OF w]) simp_all
    from one have "r \<in> set (filter ?m (records v1))" by simp
    then have "rec_zone r = z" by (simp add: matches_record_def)
    then have "filter ?m (records ?v2) = [r\<lparr>rec_content := c2\<rparr>]"
      by (simp add: filter_put_content one put_content_def)
    with u ws show ?thesis by blast
  qed
  show ?thesis
  proof (cases "filter ?m (records v)")
    case Nil
    let ?new = "\<lparr>rec_id = nextId v, rec_zone = z, rec_type = type, rec_name = domain, rec_content = c1\<rparr>"
    from updateRecord_healthy_create[OF healthy zone Nil, of c1] obtain rq where
      w: "filter is_write rq = []" and
      u: "updateRecord p domain type c1 v =
        (True, v\<lparr>received := received v @ rq @ [PostRecord z type domain c1],
                records := records v @ [?new], nextId := Suc (nextId v)\<rparr>)"
      by blast
    let ?v1 = "v\<lparr>received := received v @ rq @ [PostRecord z type domain c1],
                records := records v @ [?new], nextId := Suc (nextId v)\<rparr>"
    have ws: "writes_since v ?v1 = [PostRecord z type domain c1]"
      by (rule writes_since_one[OF w]) simp_all
    have one: "filter ?m (records ?v1) = [?new]"
      using Nil by (simp add: matches_record_def)
    have "faults ?v1 = []" "zones ?v1 = zones v" using healthy by simp_all
    from second[OF this one] obtain v2 where
      s: "updateRecord p domain type c2 ?v1 = (True, v2)"
         "writes_since ?v1 v2 = [PutRecord z (rec_id ?new) c2]"
         "filter ?m (records v2) = [?new\<lparr>rec_content := c2\<rparr>]"
      by blast
    have "updateRecord p domain type c1 v = (True, ?v1)
        \<and> updateRecord p domain type c2 ?v1 = (True, v2)
        \<and> filter ?m (records ?v1) = [?new]
        \<and> rec_content ?new = c1
        \<and> writes_since v ?v1 =
             [if filter ?m (records v) = []
              then PostRecord z type domain c1 else PutRecord z (rec_id ?new) c1]
        \<and> writes_since ?v1 v2 = [PutRecord z (rec_id ?new) c2]
        \<and> filter ?m (records v2) = [?new\<lparr>rec_content := c2\<rparr>]"
      using u s ws one Nil by simp
    then show ?thesis by blast
  next
    case (Cons r0 rs)
    with atmost have rs: "rs = []" by simp
    from updateRecord_healthy_update[OF healthy zone Cons, of c1] obtain rq where
      w: "filter is_write rq = []" and
      u: "updateRecord p domain type c1 v =
        (True, v\<lparr>received := received v @ rq @ [PutRecord z (rec_id r0) c1],
                records := map (put_content z (rec_id r0) c1) (records v)\<rparr>)"
      by blast
    let ?v1 = "v\<lparr>received := received v @ rq @ [PutRecord z (rec_id r0) c1],
                records := map (put_content z (rec_id r0) c1) (records v)\<rparr>"
    have ws: "writes_since v ?v1 = [PutRecord z (rec_id r0) c1]"
      by (rule writes_since_one[OF w]) simp_all
    from Cons have "r0 \<in> set (filter ?m (records v))" by simp
    then have "rec_zone r0 = z" by (simp add: matches_record_def)
    let ?r = "r0\<lparr>rec_content := c1\<rparr>"
    from \<open>rec_zone r0 = z\<close> have one: "filter ?m (records ?v1) = [?r]"
      using Cons rs by (simp add: filter_put_content put_content_def)
    have "faults ?v1 = []" "zones ?v1 = zones v" using healthy by simp_all
    from second[OF this one] obtain v2 where
      s: "updateRecord p domain type c2 ?v1 = (True, v2)"
         "writes_since ?v1 v2 = [PutRecord z (rec_id ?r) c2]"
         "filter ?m (records v2) = [?r\<lparr>rec_content := c2\<rparr>]"
      by blast
    have "updateRecord p domain type c1 v = (True, ?v1)
        \<and> updateRecord p domain type c2 ?v1 = (True, v2)
        \<and> filter ?m (records ?v1) = [?r]
        \<and> rec_content ?r = c1
        \<and> writes_since v ?v1 =
             [if filter ?m (records v) = []
              then PostRecord z type domain c1 else PutRecord z (rec_id ?r) c1]
        \<and> writes_since ?v1 v2 = [PutRecord z (rec_id ?r) c2]
        \<and> filter ?m (records v2) = [?r\<lparr>rec_content := c2\<rparr>]"
      using u s ws one Cons by simp
    then show ?thesis by blast
  qed
qed

lemma base_domain_example: "getBaseDomain ''hk01.example.com'' = ''example.com''"
  by (simp add: getBaseDomain_def split_def Let_def)

theorem updateRecord_twice_one_record_witness:
  "map rec_content (filter (matches_record ''z1'' ''A'' ''hk01.example.com'')
     (records (snd (updateRecord \<lparr>apiToken = ''token'', zoneId = None\<rparr> ''hk01.example.com'' ''A'' ''5.6.7.8''
        (snd (updateRecord \<lparr>apiToken = ''token'', zoneId = None\<rparr> ''hk01.example.com'' ''A'' ''1.2.3.4''
           \<lparr>zones = [(''example.com'', ''z1'')], records = [], nextId = 0, faults = [], received = []\<rparr>))))))
   = [''5.6.7.8'']"
proof -
  let ?p = "\<lparr>apiToken = ''token'', zoneId = None\<rparr>"
  let ?v = "\<lparr>zones = [(''example.com'', ''z1'')], records = [], nextId = 0, faults = [], received = []\<rparr>"
  have healthy: "faults ?v = []" by simp
  have zone: "fst (resolveZone ?p ''hk01.example.com'' ?v) = Some ''z1''"
    by (simp add: resolveZone_def getZoneId_healthy base_domain_example)
  have ne: "''z1'' \<noteq> []" by simp
  have atmost: "length (filter (matches_record ''z1'' ''A'' ''hk01.example.com'') (records ?v)) \<le> 1" by simp
  from updateRecord_twice_one_record[OF healthy zone ne atmost, of "''1.2.3.4''" "''5.6.7.8''"]
  obtain v1 v2 r where
    "updateRecord ?p ''hk01.example.com'' ''A'' ''1.2.3.4'' ?v = (True, v1)"
    "updateRecord ?p ''hk01.example.com'' ''A'' ''5.6.7.8'' v1 = (True, v2)"
    "filter (matches_record ''z1'' ''A'' ''hk01.example.com'') (records v2) = [r\<lparr>rec_content := ''5.6.7.8''\<rparr>]"
    by blast
  then show ?thesis by simp
qed

text \<open>
  Claim C5 against the code. \<open>updateRecord\<close> and \<open>getRecord\<close> never throw (their
  results are a boolean and an optional string), and \<open>getRecord\<close> answers \<open>null\<close> on
  every error. But \<open>updateRecord\<close> reports failure only when \<open>fetch\<close> rejects in a
  write or no zone is found. When the vendor answers the update with an error, which
  \<open>fetch\<close> does not reject and \<open>updateExistingRecord\<close> does not inspect,
  \<open>updateRecord\<close> returns \<open>true\<close> and the record keeps its old content.
\<close>

theorem updateRecord_true_on_vendor_error:
  "updateRecord \<lparr>apiToken = ''token'', zoneId = Some ''z1''\<rparr> ''hk01.example.com'' ''A'' ''5.6.7.8''
     \<lparr>zones = [(''example.com'', ''z1'')],
      records = [\<lparr>rec_id = 0, rec_zone = ''z1'', rec_type = ''A'', rec_name = ''hk01.example.com'',
                  rec_content = ''1.2.3.4''\<rparr>],
      nextId = 1, faults = [None, Some ApiError], received = []\<rparr>
   = (True,
      \<lparr>zones = [(''example.com'', ''z1'')],
       records = [\<lparr>rec_id = 0, rec_zone = ''z1'', rec_type = ''A'', rec_name = ''hk01.example.com'',
                  rec_content = ''1.2.3.4''\<rparr>],
       nextId = 1, faults = [],
       received = [ListRecords ''z1'' ''A'' ''hk01.example.com'', PutRecord ''z1'' 0 ''5.6.7.8'']\<rparr>)"
  by (simp add: updateRecord_def updateRecord_try_def resolveZone_def findRecord_def
      updateExistingRecord_def fetch_def matches_record_def Let_def)

text \<open>
  The same for a transport error in the lookup: \<open>findRecord\<close> swallows it and
  answers \<open>null\<close>, so \<open>updateRecord\<close> creates a second record for a name that has
  one, and returns \<open>true\<close>.
\<close>

lemma updateRecord_true_after_failed_lookup:
  "updateRecord \<lparr>apiToken = ''token'', zoneId = Some ''z1''\<rparr> ''hk01.example.com'' ''A'' ''5.6.7.8''
     \<lparr>zones = [(''example.com'', ''z1'')],
      records = [\<lparr>rec_id = 0, rec_zone = ''z1'', rec_type = ''A'', rec_name = ''hk01.example.com'',
                  rec_content = ''1.2.3.4''\<rparr>],
      nextId = 1, faults = [Some TransportError], received = []\<rparr>
   = (True,
      \<lparr>zones = [(''example.com'', ''z1'')],
       records = [\<lparr>rec_id = 0, rec_zone = ''z1'', rec_type = ''A'', rec_name = ''hk01.example.com'',
                  rec_content = ''1.2.3.4''\<rparr>,
                  \<lparr>rec_id = 1, rec_zone = ''z1'', rec_type = ''A'', rec_name = ''hk01.example.com'',
                  rec_content = ''5.6.7.8''\<rparr>],
       nextId = 2, faults = [],
       received = [ListRecords ''z1'' ''A'' ''hk01.example.com'',
                   PostRecord ''z1'' ''A'' ''hk01.example.com'' ''5.6.7.8'']\<rparr>)"
  by (simp add: updateRecord_def updateRecord_try_def resolveZone_def findRecord_def
      createNewRecord_def fetch_def matches_record_def Let_def)

lemma fetch_fault:
  "faults v = Some f # fs \<Longrightarrow>
     fetch rq v = (case f of TransportError \<Rightarrow> Inl (TypeError ''fetch failed'') | ApiError \<Rightarrow> Inr (refused rq),
                   v\<lparr>received := received v @ [rq], faults := fs\<rparr>)"
  by (cases f) (simp_all add: fetch_def Let_def)

text \<open>
  \<open>getRecord\<close> does answer \<open>null\<close> when a request of its own fails, whichever
  the fault: the first request it sends, or the record lookup after a zone lookup that
  was served.
\<close>

lemma getRecord_null_on_fault:
  "faults v = Some f # fs \<Longrightarrow> fst (getRecord p d t v) = None"
  by (cases f) (auto simp: getRecord_def resolveZone_def getZoneId_def findRecord_def fetch_fault
      split: option.splits)

lemma fetch_served:
  "faults v = None # fs \<Longrightarrow>
     fetch rq v = (Inr (fst (serve rq (v\<lparr>received := received v @ [rq], faults := fs\<rparr>))),
                   snd (serve rq (v\<lparr>received := received v @ [rq], faults := fs\<rparr>)))"
  by (simp add: fetch_def Let_def split: prod.splits)

lemma getRecord_null_on_lookup_fault:
  "faults v = None # Some f # fs \<Longrightarrow> zoneId p = None \<Longrightarrow> fst (getRecord p d t v) = None"
  by (cases f) (auto simp: getRecord_def resolveZone_def getZoneId_def findRecord_def
      fetch_served fetch_fault split: option.splits list.splits)

section \<open>Properties of the DNS service and the queue\<close>

text \<open>
  Claim C10. For a check request without an expected value, \<open>checkDnsRecord\<close> returns
  (whenever the provider is initialised) a result with \<open>matches = true\<close>, whatever
  the provider reports as the current value, an absent record included; and it returns
  no result with \<open>matches = false\<close>.
\<close>

theorem checkDnsRecord_without_expected_value:
  assumes "expectedValue request = None"
  shows "(\<forall>provider. defaultProvider w = Some provider \<longrightarrow>
            (\<exists>res w'. checkDnsRecord request w = (Inr res, w')
               \<and> matches res
               \<and> res_domain res = chk_domain request
               \<and> currentValue res = fst (getRecord provider (chk_domain request) ''A'' (vendor w))))
       \<and> (\<forall>res w'. checkDnsRecord request w = (Inr res, w') \<longrightarrow> matches res)"
  using assms
  by (auto simp: checkDnsRecord_def checkDnsRecord_try_def split: option.splits prod.splits)

theorem checkDnsRecord_without_expected_value_witness:
  "fst (checkDnsRecord \<lparr>chk_domain = ''hk01.example.com'', expectedValue = None\<rparr>
     \<lparr>defaultProvider = Some \<lparr>apiToken = ''token'', zoneId = Some ''z1''\<rparr>,
      vendor = \<lparr>zones = [(''example.com'', ''z1'')], records = [], nextId = 0, faults = [], received = []\<rparr>,
      dnsRecords = [], nodeIds = [], clock = 1000, journal = []\<rparr>)
   = Inr \<lparr>res_domain = ''hk01.example.com'', currentValue = None, matches = True\<rparr>"
  using checkDnsRecord_without_expected_value
    [where request = "\<lparr>chk_domain = ''hk01.example.com'', expectedValue = None\<rparr>"
       and w = "\<lparr>defaultProvider = Some \<lparr>apiToken = ''token'', zoneId = Some ''z1''\<rparr>,
      vendor = \<lparr>zones = [(''example.com'', ''z1'')], records = [], nextId = 0, faults = [], received = []\<rparr>,
      dnsRecords = [], nodeIds = [], clock = 1000, journal = []\<rparr>"]
  by (simp add: checkDnsRecord_def checkDnsRecord_try_def getRecord_def resolveZone_def
      findRecord_def fetch_def Let_def)

lemma update_task_parts:
  "update_task request wk w =
     (fst (updateDnsRecord request w),
      noted (LogInfo (''Processing DNS update: '' @ req_domain request @ '' ('' @ req_type request @ '')'')) wk,
      snd (updateDnsRecord request w))"
  by (simp add: update_task_def split: prod.splits)

lemma run_tasks_Cons:
  "run_tasks (request # rest) wk w =
     (settlement (fst (updateDnsRecord request w))
        # fst (run_tasks rest (after_task request wk w) (snd (updateDnsRecord request w))),
      snd (run_tasks rest (after_task request wk w) (snd (updateDnsRecord request w))))"
  by (cases "fst (updateDnsRecord request w)")
     (simp_all add: update_task_parts after_task_def Let_def split: prod.splits)


lemma run_tasks_length: "length (fst (run_tasks rs wk w)) = length rs"
proof (induction rs arbitrary: wk w)
  case Nil
  then show ?case by simp
next
  case (Cons r rs)
  show ?case unfolding run_tasks_Cons using Cons.IH by simp
qed












text \<open>A single request: \<open>addUpdateTasks\<close> and \<open>addUpdateTask\<close> agree.\<close>

lemma addUpdateTasks_single:
  "addUpdateTasks [request] wk w = map_option (\<lambda>(p, rest). ([p], rest)) (addUpdateTask request wk w)"
  by (auto simp: addUpdateTasks_def addUpdateTask_def Let_def drain_def run_tasks_length
      split: prod.splits list.splits)

end
